theory Spec2Isabelle
  imports Main
begin

section \<open>JavaScript values\<close>

text \<open>
  The scanner and the validator work on whatever \<^verbatim>\<open>JSON.parse\<close> returns, so the model
  carries JavaScript values. An object lists its own properties in the engine's enumeration
  order (the order of \<^verbatim>\<open>Object.values\<close>), with pairwise distinct keys. The model
  covers the numbers that are integers of magnitude below \<open>2^53\<close>, which \<^verbatim>\<open>JSON.parse\<close>
  reads exactly and a template literal prints in decimal (the code only tests numbers for
  truthiness and prints them), and the strings whose UTF-16 code units are all below 256,
  a \<open>char\<close> standing for one code unit.
\<close>

datatype jsval =
    JUndefined
  | JNull
  | JBool bool
  | JNum int
  | JStr string
  | JArr "jsval list"
  | JObj "(string \<times> jsval) list"

datatype js_error = TypeError string | SyntaxError string

fun message :: "js_error \<Rightarrow> string" where
  "message (TypeError m) = m"
| "message (SyntaxError m) = m"

fun nullish :: "jsval \<Rightarrow> bool" where
  "nullish JUndefined = True"
| "nullish JNull = True"
| "nullish _ = False"

text \<open>Truthiness, as tested by \<^verbatim>\<open>if (v)\<close>, \<^verbatim>\<open>v || w\<close>, \<^verbatim>\<open>v && w\<close> and \<^verbatim>\<open>!v\<close>.\<close>

fun truthy :: "jsval \<Rightarrow> bool" where
  "truthy JUndefined = False"
| "truthy JNull = False"
| "truthy (JBool b) = b"
| "truthy (JNum n) = (n \<noteq> 0)"
| "truthy (JStr s) = (s \<noteq> [])"
| "truthy (JArr xs) = True"
| "truthy (JObj kvs) = True"

text \<open>
  \<^verbatim>\<open>a === b\<close>. Primitives compare by value. Objects and arrays compare by identity, and
  two values read from different places of a parsed document are never the same object.
\<close>

fun strict_eq :: "jsval \<Rightarrow> jsval \<Rightarrow> bool" where
  "strict_eq (JArr xs) b = False"
| "strict_eq (JObj kvs) b = False"
| "strict_eq a b = (a = b)"

text \<open>
  \<^verbatim>\<open>v.k\<close> on a value that is neither \<^verbatim>\<open>null\<close> nor \<^verbatim>\<open>undefined\<close>: an own property, the
  \<^verbatim>\<open>length\<close> of an array or a string, and \<^verbatim>\<open>undefined\<close> otherwise.
\<close>

fun js_get :: "jsval \<Rightarrow> string \<Rightarrow> jsval" where
  "js_get (JObj kvs) k = (case map_of kvs k of Some v \<Rightarrow> v | None \<Rightarrow> JUndefined)"
| "js_get (JArr xs) k = (if k = ''length'' then JNum (int (length xs)) else JUndefined)"
| "js_get (JStr s) k = (if k = ''length'' then JNum (int (length s)) else JUndefined)"
| "js_get v k = JUndefined"

text \<open>The message of Node's TypeError for a property read on \<^verbatim>\<open>null\<close> or \<^verbatim>\<open>undefined\<close>.\<close>

definition quoted :: "string \<Rightarrow> string" where
  "quoted s = [CHR 0x27] @ s @ [CHR 0x27]"

definition cannot_read :: "jsval \<Rightarrow> string \<Rightarrow> string" where
  "cannot_read v k =
     ''Cannot read properties of '' @ (if v = JNull then ''null'' else ''undefined'')
       @ '' (reading '' @ quoted k @ '')''"

text \<open>\<^verbatim>\<open>v.k\<close>: throws on \<^verbatim>\<open>null\<close> and \<^verbatim>\<open>undefined\<close>.\<close>

definition member :: "jsval \<Rightarrow> string \<Rightarrow> js_error + jsval" where
  "member v k = (if nullish v then Inl (TypeError (cannot_read v k)) else Inr (js_get v k))"

text \<open>\<^verbatim>\<open>v?.k\<close>: \<^verbatim>\<open>undefined\<close> on \<^verbatim>\<open>null\<close> and \<^verbatim>\<open>undefined\<close>.\<close>

definition opt_member :: "jsval \<Rightarrow> string \<Rightarrow> jsval" where
  "opt_member v k = (if nullish v then JUndefined else js_get v k)"

text \<open>\<^verbatim>\<open>o.k = v\<close> on an object: an existing property keeps its place, a new one goes last.\<close>

fun assign :: "(string \<times> jsval) list \<Rightarrow> string \<Rightarrow> jsval \<Rightarrow> (string \<times> jsval) list" where
  "assign [] k v = [(k, v)]"
| "assign ((k', v') # kvs) k v = (if k' = k then (k, v) # kvs else (k', v') # assign kvs k v)"

subsection \<open>Template literals\<close>

fun string_of_nat :: "nat \<Rightarrow> string" where
  "string_of_nat n =
     (if n < 10 then [char_of (48 + n)]
      else string_of_nat (n div 10) @ [char_of (48 + n mod 10)])"

declare string_of_nat.simps [simp del]

definition string_of_int :: "int \<Rightarrow> string" where
  "string_of_int i = (if i < 0 then ''-'' @ string_of_nat (nat (- i)) else string_of_nat (nat i))"

fun join :: "string \<Rightarrow> string list \<Rightarrow> string" where
  "join sep [] = []"
| "join sep [x] = x"
| "join sep (x # y # ys) = x @ sep @ join sep (y # ys)"

text \<open>The results of a run of evaluations, up to the first that throws.\<close>

fun collect :: "(js_error + 'a) list \<Rightarrow> js_error + 'a list" where
  "collect [] = Inr []"
| "collect (Inl e # rs) = Inl e"
| "collect (Inr x # rs) = (case collect rs of Inl e \<Rightarrow> Inl e | Inr xs \<Rightarrow> Inr (x # xs))"

text \<open>
  The string a value becomes inside \<^verbatim>\<open>`...${v}...`\<close>; \<open>Inl\<close> is the TypeError thrown on
  the way. An array joins the strings of its elements with commas, \<^verbatim>\<open>null\<close> and
  \<^verbatim>\<open>undefined\<close> elements being empty. An object of a parsed document prints as
  \<^verbatim>\<open>[object Object]\<close> through the inherited \<^verbatim>\<open>toString\<close>, unless it has an own property
  \<^verbatim>\<open>toString\<close>: that one is no function, the inherited \<^verbatim>\<open>valueOf\<close> returns the object
  itself, and the conversion throws.
\<close>

fun js_to_string :: "jsval \<Rightarrow> js_error + string" where
  "js_to_string JUndefined = Inr ''undefined''"
| "js_to_string JNull = Inr ''null''"
| "js_to_string (JBool b) = Inr (if b then ''true'' else ''false'')"
| "js_to_string (JNum n) = Inr (string_of_int n)"
| "js_to_string (JStr s) = Inr s"
| "js_to_string (JArr xs) =
     (case collect (map (\<lambda>x. if x = JUndefined \<or> x = JNull then Inr []
                               else js_to_string x) xs) of
        Inl e \<Rightarrow> Inl e
      | Inr ss \<Rightarrow> Inr (join '','' ss))"
| "js_to_string (JObj kvs) =
     (if map_of kvs ''toString'' = None then Inr ''[object Object]''
      else Inl (TypeError ''Cannot convert object to primitive value''))"

section \<open>LegacyFormatConverter: convertToLegacyFormat (scan-modules.js)\<close>

text \<open>\<^verbatim>\<open>s.replace(/-/g, '_')\<close> on a string.\<close>

definition replace_dashes :: "string \<Rightarrow> string" where
  "replace_dashes s = map (\<lambda>c. if c = CHR ''-'' then CHR ''_'' else c) s"

text \<open>
  \<^verbatim>\<open>moduleData.name.replace(/-/g, '_')\<close>, given the value of \<^verbatim>\<open>moduleData.name\<close>. Only a
  string has the method; the call throws a TypeError on every other value.
\<close>

fun name_replace :: "jsval \<Rightarrow> js_error + string" where
  "name_replace (JStr s) = Inr (replace_dashes s)"
| "name_replace JUndefined = Inl (TypeError (cannot_read JUndefined ''replace''))"
| "name_replace JNull = Inl (TypeError (cannot_read JNull ''replace''))"
| "name_replace v = Inl (TypeError ''moduleData.name.replace is not a function'')"

text \<open>
  \<^verbatim>\<open>convertToLegacyFormat\<close>; \<open>Inl\<close> is the error thrown while the object literal is
  evaluated, property after property: by \<^verbatim>\<open>moduleData.name\<close> on \<^verbatim>\<open>null\<close>, by the
  \<^verbatim>\<open>replace\<close> call of the \<^verbatim>\<open>repository\<close> fallback, or by the template literal of the
  \<^verbatim>\<open>url\<close> fallback.
\<close>

definition convertToLegacyFormat :: "jsval \<Rightarrow> js_error + jsval" where
  "convertToLegacyFormat moduleData =
     (if nullish moduleData then Inl (TypeError (cannot_read moduleData ''name''))
      else
        let name = js_get moduleData ''name'';
            deployment = js_get moduleData ''deployment'';
            urls = js_get moduleData ''urls'';
            metadata = js_get moduleData ''metadata'';
            status = js_get moduleData ''status''
        in case (if truthy (opt_member deployment ''repository'')
                 then Inr (opt_member deployment ''repository'')
                 else case name_replace name of
                        Inl e \<Rightarrow> Inl e
                      | Inr s \<Rightarrow> Inr (JStr (''mod_'' @ s))) of
             Inl e \<Rightarrow> Inl e
           | Inr repository \<Rightarrow>
          (case (if truthy (opt_member urls ''production'')
                 then Inr (opt_member urls ''production'')
                 else case js_to_string name of
                        Inl e \<Rightarrow> Inl e
                      | Inr n \<Rightarrow> Inr (JStr (''https://'' @ n @ ''.infotecha.ru''))) of
             Inl e \<Rightarrow> Inl e
           | Inr url \<Rightarrow>
               Inr (JObj
                 [(''name'', name),
                  (''title'', js_get moduleData ''title''),
                  (''description'', js_get moduleData ''description''),
                  (''subdomain'',
                     if truthy (opt_member deployment ''subdomain'')
                     then opt_member deployment ''subdomain'' else name),
                  (''repository'', repository),
                  (''url'', url),
                  (''version'', js_get moduleData ''version''),
                  (''type'', js_get moduleData ''type''),
                  (''difficulty'', opt_member metadata ''difficulty''),
                  (''estimated_time'', opt_member metadata ''estimated_time''),
                  (''tags'',
                     if truthy (opt_member metadata ''tags'')
                     then opt_member metadata ''tags'' else JArr []),
                  (''lifecycle'', opt_member status ''lifecycle''),
                  (''last_updated'', opt_member status ''last_updated''),
                  (''hugo_config'', js_get moduleData ''hugo_config'')])))"

section \<open>DescriptorValidator (validate-module.js)\<close>

text \<open>
  One constructor per convention warning of \<^verbatim>\<open>performSemanticValidation\<close>, holding the
  strings its template literal interpolates:
  \<^item> \<^verbatim>\<open>Subdomain "${deployment?.subdomain}" doesn't match module name "${name}"\<close>
  \<^item> \<^verbatim>\<open>Repository name "${deployment?.repository}" doesn't follow convention. Expected: "${expectedRepo}"\<close>
  \<^item> \<^verbatim>\<open>Production URL "${urls?.production}" doesn't match expected format: "${expectedUrl}"\<close>
  \<^item> \<^verbatim>\<open>License not specified - consider adding one\<close>
  \<^item> \<^verbatim>\<open>Hugo version ${hugo_version} differs from current platform version 0.148.0\<close>
  \<^item> \<^verbatim>\<open>Consider adding more tags (3-5 recommended) for better categorization\<close>
\<close>

datatype warning =
    SubdomainMismatch string string
  | RepositoryConvention string string
  | ProductionUrl string string
  | LicenseMissing
  | HugoVersion string
  | FewTags

fun is_subdomain_mismatch :: "warning \<Rightarrow> bool" where
  "is_subdomain_mismatch (SubdomainMismatch sub name) = True"
| "is_subdomain_mismatch w = False"

text \<open>
  \<^verbatim>\<open>v < n\<close> for a number \<open>n\<close>; \<open>Inl\<close> is the TypeError thrown on the way. Numbers compare
  as they are, \<^verbatim>\<open>undefined\<close> is NaN, \<^verbatim>\<open>null\<close> is 0 and a boolean 0 or 1. A string is
  converted to a number, an array or an object to its string first (which may throw) and
  then to a number; the comparison of the number a string converts to is the engine's
  business, taken as the parameter \<open>coerced_less\<close>.
\<close>

fun js_less :: "(string \<Rightarrow> int \<Rightarrow> bool) \<Rightarrow> jsval \<Rightarrow> int \<Rightarrow> js_error + bool" where
  "js_less coerced_less (JNum i) n = Inr (i < n)"
| "js_less coerced_less JUndefined n = Inr False"
| "js_less coerced_less JNull n = Inr (0 < n)"
| "js_less coerced_less (JBool b) n = Inr ((if b then 1 else 0) < n)"
| "js_less coerced_less v n =
     (case js_to_string v of Inl e \<Rightarrow> Inl e | Inr s \<Rightarrow> Inr (coerced_less s n))"

text \<open>
  \<^verbatim>\<open>if (c) { warnings.push(w) }\<close>, where building the message \<open>w\<close> may throw, and the
  warnings of two runs of checks, the first error thrown winning.
\<close>

definition warn_if :: "bool \<Rightarrow> js_error + warning \<Rightarrow> js_error + warning list" where
  "warn_if c w = (if c then (case w of Inl e \<Rightarrow> Inl e | Inr x \<Rightarrow> Inr [x]) else Inr [])"

definition and_then ::
    "js_error + warning list \<Rightarrow> js_error + warning list \<Rightarrow> js_error + warning list" where
  "and_then r1 r2 =
     (case r1 of
        Inl e \<Rightarrow> Inl e
      | Inr ws1 \<Rightarrow> (case r2 of Inl e \<Rightarrow> Inl e | Inr ws2 \<Rightarrow> Inr (ws1 @ ws2)))"

text \<open>The message of the first warning: two values are interpolated, in this order.\<close>

definition subdomain_message :: "jsval \<Rightarrow> jsval \<Rightarrow> js_error + warning" where
  "subdomain_message sub name =
     (case js_to_string sub of
        Inl e \<Rightarrow> Inl e
      | Inr a \<Rightarrow> (case js_to_string name of
                   Inl e \<Rightarrow> Inl e
                 | Inr b \<Rightarrow> Inr (SubdomainMismatch a b)))"

text \<open>A message that interpolates one value.\<close>

definition message_of :: "(string \<Rightarrow> warning) \<Rightarrow> jsval \<Rightarrow> js_error + warning" where
  "message_of mk v = (case js_to_string v of Inl e \<Rightarrow> Inl e | Inr a \<Rightarrow> Inr (mk a))"

text \<open>
  \<^verbatim>\<open>performSemanticValidation\<close>, check after check in the order of the source; \<open>Inl\<close> is
  the error thrown on the way: by \<^verbatim>\<open>moduleData.deployment\<close> on \<^verbatim>\<open>null\<close>, by a template
  literal, by \<^verbatim>\<open>moduleData.name.replace\<close>, or by the comparison of \<^verbatim>\<open>tags.length\<close>.
\<close>

definition performSemanticValidation ::
    "(string \<Rightarrow> int \<Rightarrow> bool) \<Rightarrow> jsval \<Rightarrow> js_error + warning list" where
  "performSemanticValidation coerced_less moduleData =
     (if nullish moduleData then Inl (TypeError (cannot_read moduleData ''deployment''))
      else
        let name = js_get moduleData ''name'';
            deployment = js_get moduleData ''deployment'';
            urls = js_get moduleData ''urls'';
            metadata = js_get moduleData ''metadata'';
            hugo_config = js_get moduleData ''hugo_config''
        in and_then
             (warn_if (\<not> strict_eq (opt_member deployment ''subdomain'') name)
                (subdomain_message (opt_member deployment ''subdomain'') name))
             (case name_replace name of
                Inl e \<Rightarrow> Inl e
              | Inr s \<Rightarrow>
                  (let expectedRepo = ''mod_'' @ s in
                   and_then
                     (warn_if (\<not> strict_eq (opt_member deployment ''repository'')
                                   (JStr expectedRepo))
                        (message_of (\<lambda>a. RepositoryConvention a expectedRepo)
                           (opt_member deployment ''repository'')))
                     (case js_to_string name of
                        Inl e \<Rightarrow> Inl e
                      | Inr n \<Rightarrow>
                          (let expectedUrl = ''https://'' @ n @ ''.infotecha.ru'' in
                           and_then
                             (warn_if (\<not> strict_eq (opt_member urls ''production'')
                                           (JStr expectedUrl))
                                (message_of (\<lambda>a. ProductionUrl a expectedUrl)
                                   (opt_member urls ''production'')))
                          (and_then
                             (warn_if (\<not> truthy (opt_member metadata ''license''))
                                (Inr LicenseMissing))
                          (and_then
                             (warn_if (truthy (opt_member hugo_config ''hugo_version'')
                                  \<and> \<not> strict_eq (js_get hugo_config ''hugo_version'')
                                        (JStr ''0.148.0''))
                                (message_of HugoVersion (js_get hugo_config ''hugo_version'')))
                             (if truthy (opt_member metadata ''tags'')
                              then (case js_less coerced_less
                                           (js_get (js_get metadata ''tags'') ''length'') 3 of
                                      Inl e \<Rightarrow> Inl e
                                    | Inr few \<Rightarrow> Inr (if few then [FewTags] else []))
                              else Inr []))))))))"

text \<open>
  \<^verbatim>\<open>validateModule\<close>. The compiled schema \<open>validate\<close> is a parameter: the schema file
  \<^verbatim>\<open>schemas/module.json\<close> and the Ajv library are not part of the sources at hand. The
  result holds the returned boolean and the warnings handed to \<^verbatim>\<open>Logger.warning\<close>;
  \<open>Inl\<close> is the error \<^verbatim>\<open>performSemanticValidation\<close> throws.
\<close>

definition validateModule ::
    "(jsval \<Rightarrow> bool) \<Rightarrow> (string \<Rightarrow> int \<Rightarrow> bool) \<Rightarrow> jsval \<Rightarrow> js_error + (bool \<times> warning list)" where
  "validateModule validate coerced_less moduleData =
     (if \<not> validate moduleData then Inr (False, [])
      else case performSemanticValidation coerced_less moduleData of
             Inl e \<Rightarrow> Inl e
           | Inr warnings \<Rightarrow> Inr (True, warnings))"

section \<open>The scanner's surroundings\<close>

datatype http_outcome = NetworkError string | Response nat string

text \<open>
  What the scanner cannot decide itself: the answer \<open>http w n path\<close> of the network to the
  request number \<open>n\<close> (a transport error, or a status code and a body), the reading
  \<open>clock w n\<close> of the \<open>n\<close>-th look at the clock in milliseconds, \<^verbatim>\<open>JSON.parse\<close> (\<open>Inl\<close> the
  message of its SyntaxError), \<^verbatim>\<open>Buffer.from(v, 'base64').toString('utf8')\<close> (\<open>None\<close> where
  it throws), and the text of the central \<^verbatim>\<open>modules.json\<close> (\<open>None\<close> where the file is
  missing or unreadable).
\<close>

record world =
  http :: "nat \<Rightarrow> string \<Rightarrow> http_outcome"
  clock :: "nat \<Rightarrow> int"
  JSON_parse :: "string \<Rightarrow> string + jsval"
  Buffer_from :: "jsval \<Rightarrow> string option"
  central_file :: "string option"

datatype source = ModuleJson | Central

text \<open>
  ScanResult: \<^verbatim>\<open>{success: true, source: 'module.json' | 'central', data}\<close> or
  \<^verbatim>\<open>{success: false, error}\<close>.
\<close>

datatype scan_result = Success source jsval | Failure string

record cache_entry =
  data :: scan_result
  timestamp :: int

text \<open>
  A \<^verbatim>\<open>ModuleScanner\<close>: its cache, and with it the paths requested from the network so far
  and the number of clock readings so far. Logger calls only write to the console and are
  left out.
\<close>

record scanner =
  cache :: "string \<rightharpoonup> cache_entry"
  requests :: "string list"
  ticks :: nat

definition ModuleScanner :: scanner where
  "ModuleScanner = \<lparr>cache = Map.empty, requests = [], ticks = 0\<rparr>"

definition cacheExpiry :: int where
  "cacheExpiry = 5 * 60 * 1000"

definition ORG_NAME :: string where
  "ORG_NAME = ''info-tech-io''"

definition Date_now :: "world \<Rightarrow> scanner \<Rightarrow> int \<times> scanner" where
  "Date_now w s = (clock w (ticks s), s\<lparr>ticks := Suc (ticks s)\<rparr>)"

section \<open>RemoteRepositoryClient: GitHubClient (scan-modules.js)\<close>

text \<open>\<^verbatim>\<open>request\<close>: \<open>Inl\<close> is the message of the Error the promise is rejected with.\<close>

definition request :: "world \<Rightarrow> string \<Rightarrow> scanner \<Rightarrow> (string + jsval) \<times> scanner" where
  "request w path s =
     (let s' = s\<lparr>requests := requests s @ [path]\<rparr> in
      case http w (length (requests s)) path of
        NetworkError m \<Rightarrow> (Inl (''GitHub API request failed: '' @ m), s')
      | Response statusCode body \<Rightarrow>
          (case JSON_parse w body of
             Inl m \<Rightarrow> (Inl (''Failed to parse GitHub API response: '' @ m), s')
           | Inr jsonData \<Rightarrow>
               if statusCode \<ge> 400 then
                 (case member jsonData ''message'' of
                    Inl e \<Rightarrow> (Inl (''Failed to parse GitHub API response: '' @ message e), s')
                  | Inr m \<Rightarrow>
                      (case js_to_string m of
                         Inl e \<Rightarrow>
                           (Inl (''Failed to parse GitHub API response: '' @ message e), s')
                       | Inr text \<Rightarrow>
                           (Inl (''GitHub API error '' @ string_of_nat statusCode @ '': ''
                                   @ text), s')))
               else (Inr jsonData, s')))"

text \<open>
  The callback of \<^verbatim>\<open>repos.filter\<close>: \<^verbatim>\<open>repo.name.startsWith('mod_')\<close>, which throws unless
  \<^verbatim>\<open>repo.name\<close> is a string.
\<close>

definition starts_with_mod :: "jsval \<Rightarrow> js_error + bool" where
  "starts_with_mod repo =
     (case member repo ''name'' of
        Inl e \<Rightarrow> Inl e
      | Inr (JStr n) \<Rightarrow> Inr (take 4 n = ''mod_'')
      | Inr JUndefined \<Rightarrow> Inl (TypeError (cannot_read JUndefined ''startsWith''))
      | Inr JNull \<Rightarrow> Inl (TypeError (cannot_read JNull ''startsWith''))
      | Inr v \<Rightarrow> Inl (TypeError ''repo.name.startsWith is not a function''))"

fun filter_mod :: "jsval list \<Rightarrow> js_error + jsval list" where
  "filter_mod [] = Inr []"
| "filter_mod (repo # repos) =
     (case starts_with_mod repo of
        Inl e \<Rightarrow> Inl e
      | Inr keep \<Rightarrow>
          (case filter_mod repos of
             Inl e \<Rightarrow> Inl e
           | Inr rs \<Rightarrow> Inr (if keep then repo # rs else rs)))"

text \<open>
  \<^verbatim>\<open>getRepositories\<close>: every failure (a rejected request, a response that is no array, an
  entry without a string name) is caught and gives the empty list.
\<close>

definition getRepositories :: "world \<Rightarrow> string \<Rightarrow> scanner \<Rightarrow> jsval list \<times> scanner" where
  "getRepositories w org s =
     (case request w (''/orgs/'' @ org @ ''/repos?type=all&per_page=100'') s of
        (Inl e, s') \<Rightarrow> ([], s')
      | (Inr (JArr repos), s') \<Rightarrow>
          (case filter_mod repos of Inl e \<Rightarrow> ([], s') | Inr rs \<Rightarrow> (rs, s'))
      | (Inr v, s') \<Rightarrow> ([], s'))"

text \<open>\<^verbatim>\<open>getFileContent\<close>: the decoded text, or \<open>None\<close> for \<^verbatim>\<open>null\<close>; it never throws.\<close>

definition getFileContent ::
    "world \<Rightarrow> string \<Rightarrow> string \<Rightarrow> string \<Rightarrow> string \<Rightarrow> scanner \<Rightarrow> string option \<times> scanner" where
  "getFileContent w org repo path branch s =
     (case request w (''/repos/'' @ org @ ''/'' @ repo @ ''/contents/'' @ path
                        @ ''?ref='' @ branch) s of
        (Inl e, s') \<Rightarrow> (None, s')
      | (Inr response, s') \<Rightarrow>
          (case member response ''content'' of
             Inl e \<Rightarrow> (None, s')
           | Inr content \<Rightarrow>
               if truthy content then (Buffer_from w content, s') else (None, s')))"

section \<open>ModuleScanner (scan-modules.js)\<close>

text \<open>
  \<^verbatim>\<open>loadCentralModules\<close>: the parsed central registry; \<^verbatim>\<open>{ modules: [] }\<close> where the file
  is missing or does not parse.
\<close>

definition loadCentralModules :: "world \<Rightarrow> jsval" where
  "loadCentralModules w =
     (case central_file w of
        None \<Rightarrow> JObj [(''modules'', JArr [])]
      | Some content \<Rightarrow>
          (case JSON_parse w content of
             Inl m \<Rightarrow> JObj [(''modules'', JArr [])]
           | Inr v \<Rightarrow> v))"

text \<open>\<^verbatim>\<open>Object.values(v)\<close> for a value that is neither \<^verbatim>\<open>null\<close> nor \<^verbatim>\<open>undefined\<close>.\<close>

fun Object_values :: "jsval \<Rightarrow> jsval list" where
  "Object_values (JObj kvs) = map snd kvs"
| "Object_values (JArr xs) = xs"
| "Object_values (JStr s) = map (\<lambda>c. JStr [c]) s"
| "Object_values v = []"

text \<open>
  \<^verbatim>\<open>.find(m => m.content_repo === moduleName)\<close>: the first element the callback accepts,
  \<^verbatim>\<open>undefined\<close> when there is none; the callback throws on a \<^verbatim>\<open>null\<close> element.
\<close>

fun find_content_repo :: "string \<Rightarrow> jsval list \<Rightarrow> js_error + jsval" where
  "find_content_repo moduleName [] = Inr JUndefined"
| "find_content_repo moduleName (m # ms) =
     (case member m ''content_repo'' of
        Inl e \<Rightarrow> Inl e
      | Inr v \<Rightarrow>
          if strict_eq v (JStr moduleName) then Inr m else find_content_repo moduleName ms)"

text \<open>
  The fallback of \<^verbatim>\<open>scanModule\<close>, from \<^verbatim>\<open>loadCentralModules()\<close> to the end of the
  \<^verbatim>\<open>try\<close> block; \<open>Inl\<close> is the error thrown on the way.
\<close>

definition central_fallback :: "world \<Rightarrow> string \<Rightarrow> js_error + scan_result" where
  "central_fallback w moduleName =
     (let centralModules = loadCentralModules w in
      case member centralModules ''modules'' of
        Inl e \<Rightarrow> Inl e
      | Inr modules \<Rightarrow>
          (case (if truthy modules
                 then find_content_repo moduleName (Object_values modules)
                 else Inr JNull) of
             Inl e \<Rightarrow> Inl e
           | Inr centralModule \<Rightarrow>
               if truthy centralModule
               then Inr (Success Central centralModule)
               else Inr (Failure ''No configuration found'')))"

text \<open>
  The body of the \<^verbatim>\<open>try\<close> block of \<^verbatim>\<open>scanModule\<close>; \<open>Inl\<close> is the error thrown inside it.
  \<^verbatim>\<open>if (moduleJsonContent)\<close> lets neither \<^verbatim>\<open>null\<close> nor the empty string through.
\<close>

definition scanModule_try ::
    "world \<Rightarrow> string \<Rightarrow> string \<Rightarrow> scanner \<Rightarrow> (js_error + scan_result) \<times> scanner" where
  "scanModule_try w moduleName cacheKey s =
     (case getFileContent w ORG_NAME moduleName ''module.json'' ''main'' s of
        (moduleJsonContent, s1) \<Rightarrow>
          if moduleJsonContent \<noteq> None \<and> moduleJsonContent \<noteq> Some [] then
            (case JSON_parse w (the moduleJsonContent) of
               Inl m \<Rightarrow> (Inl (SyntaxError m), s1)
             | Inr moduleData \<Rightarrow>
                 (case Date_now w s1 of
                    (now, s2) \<Rightarrow>
                      (Inr (Success ModuleJson moduleData),
                       s2\<lparr>cache := (cache s2)(cacheKey \<mapsto>
                            \<lparr>data = Success ModuleJson moduleData, timestamp = now\<rparr>)\<rparr>)))
          else (central_fallback w moduleName, s1))"

text \<open>
  The \<^verbatim>\<open>try\<close> statement of \<^verbatim>\<open>scanModule\<close>: whatever the block throws becomes a failed
  result carrying the error's message.
\<close>

definition scanModule_uncached :: "world \<Rightarrow> string \<Rightarrow> scanner \<Rightarrow> scan_result \<times> scanner" where
  "scanModule_uncached w moduleName s =
     (case scanModule_try w moduleName (''module:'' @ moduleName) s of
        (Inl error, s') \<Rightarrow> (Failure (message error), s')
      | (Inr result, s') \<Rightarrow> (result, s'))"

text \<open>
  \<^verbatim>\<open>scanModule\<close>: the cache is consulted first; the clock is read only when the key has an
  entry.
\<close>

definition scanModule :: "world \<Rightarrow> string \<Rightarrow> scanner \<Rightarrow> scan_result \<times> scanner" where
  "scanModule w moduleName s =
     (case cache s (''module:'' @ moduleName) of
        None \<Rightarrow> scanModule_uncached w moduleName s
      | Some cached \<Rightarrow>
          (case Date_now w s of
             (now, s0) \<Rightarrow>
               if now - timestamp cached < cacheExpiry then (data cached, s0)
               else scanModule_uncached w moduleName s0))"

text \<open>An element of the array \<^verbatim>\<open>scanAllModules\<close> returns: \<^verbatim>\<open>{repository: repo.name, ...result}\<close>.\<close>

record scanned =
  repository :: string
  outcome :: scan_result

text \<open>
  \<^verbatim>\<open>repo.name\<close> of a listed repository. \<^verbatim>\<open>getRepositories\<close> only lets through
  repositories whose name is a string; the other case is never met.
\<close>

definition repo_name :: "jsval \<Rightarrow> string" where
  "repo_name repo = (case js_get repo ''name'' of JStr n \<Rightarrow> n | v \<Rightarrow> [])"

text \<open>The loop of \<^verbatim>\<open>scanAllModules\<close>: one module after the other, on the same scanner.\<close>

fun scan_repos :: "world \<Rightarrow> jsval list \<Rightarrow> scanner \<Rightarrow> scanned list \<times> scanner" where
  "scan_repos w [] s = ([], s)"
| "scan_repos w (repo # repos) s =
     (case scanModule w (repo_name repo) s of
        (result, s1) \<Rightarrow>
          (case scan_repos w repos s1 of
             (results, s2) \<Rightarrow>
               (\<lparr>repository = repo_name repo, outcome = result\<rparr> # results, s2)))"

text \<open>
  \<^verbatim>\<open>scanAllModules\<close>. Neither \<^verbatim>\<open>getRepositories\<close> nor \<^verbatim>\<open>scanModule\<close> throws, so the
  \<^verbatim>\<open>catch\<close> branch returning \<^verbatim>\<open>[]\<close> is never taken.
\<close>

definition scanAllModules :: "world \<Rightarrow> scanner \<Rightarrow> scanned list \<times> scanner" where
  "scanAllModules w s =
     (case getRepositories w ORG_NAME s of
        (repos, s1) \<Rightarrow> scan_repos w repos s1)"

text \<open>
  \<^verbatim>\<open>d._source = v\<close> in strict code (a class body): a property of an object is set, an
  array keeps its elements, and the assignment throws on everything else.
\<close>

fun js_typeof :: "jsval \<Rightarrow> string" where
  "js_typeof JUndefined = ''undefined''"
| "js_typeof (JBool b) = ''boolean''"
| "js_typeof (JNum n) = ''number''"
| "js_typeof (JStr s) = ''string''"
| "js_typeof v = ''object''"

fun set_source :: "jsval \<Rightarrow> jsval \<Rightarrow> js_error + jsval" where
  "set_source (JObj kvs) v = Inr (JObj (assign kvs ''_source'' v))"
| "set_source (JArr xs) v = Inr (JArr xs)"
| "set_source JUndefined v =
     Inl (TypeError (''Cannot set properties of undefined (setting '' @ quoted ''_source'' @ '')''))"
| "set_source JNull v =
     Inl (TypeError (''Cannot set properties of null (setting '' @ quoted ''_source'' @ '')''))"
| "set_source d v =
     Inl (TypeError (''Cannot create property '' @ quoted ''_source'' @ '' on ''
                       @ js_typeof d @ '' ''
                       @ quoted (case js_to_string d of Inr text \<Rightarrow> text | Inl e \<Rightarrow> [])))"

text \<open>
  The branch \<^verbatim>\<open>if (result.success)\<close> of the loop of \<^verbatim>\<open>generateUnifiedModules\<close>: the
  entry pushed for a successful result; \<open>Inl\<close> is the error thrown on the way.
\<close>

fun catalog_entry :: "source \<Rightarrow> jsval \<Rightarrow> js_error + jsval" where
  "catalog_entry ModuleJson d =
     (case convertToLegacyFormat d of
        Inl e \<Rightarrow> Inl e
      | Inr legacyFormat \<Rightarrow> set_source legacyFormat (JStr ''module.json''))"
| "catalog_entry Central d = set_source d (JStr ''central'')"

text \<open>
  The loop of \<^verbatim>\<open>generateUnifiedModules\<close> over the scan results, \<open>modules\<close> being
  \<^verbatim>\<open>unifiedModules.modules\<close> so far. A failed result is skipped; an error thrown for a
  successful one leaves the loop and the function.
\<close>

fun unify :: "scanned list \<Rightarrow> jsval list \<Rightarrow> js_error + jsval list" where
  "unify [] modules = Inr modules"
| "unify (result # results) modules =
     (case outcome result of
        Failure error \<Rightarrow> unify results modules
      | Success src d \<Rightarrow>
          (case catalog_entry src d of
             Inl e \<Rightarrow> Inl e
           | Inr entry \<Rightarrow> unify results (modules @ [entry])))"

text \<open>
  UnifiedCatalog. \<open>generated_at\<close> is the clock reading behind \<^verbatim>\<open>new Date().toISOString()\<close>.
\<close>

record unified =
  version :: string
  generated_at :: int
  build_system :: string
  modules :: "jsval list"

definition generateUnifiedModules :: "world \<Rightarrow> scanner \<Rightarrow> (js_error + unified) \<times> scanner" where
  "generateUnifiedModules w s =
     (case scanAllModules w s of
        (scanResults, s1) \<Rightarrow>
          (case Date_now w s1 of
             (now, s2) \<Rightarrow>
               (case unify scanResults [] of
                  Inl e \<Rightarrow> (Inl e, s2)
                | Inr ms \<Rightarrow>
                    (Inr \<lparr>version = ''2.0'', generated_at = now, build_system = ''hybrid'',
                          modules = ms\<rparr>, s2))))"

section \<open>Notions the properties are stated with\<close>

text \<open>The key \<^verbatim>\<open>`module:${moduleName}`\<close> and the path \<^verbatim>\<open>scanModule\<close> requests for a module.\<close>

definition cache_key :: "string \<Rightarrow> string" where
  "cache_key moduleName = ''module:'' @ moduleName"

definition module_json_path :: "string \<Rightarrow> string" where
  "module_json_path moduleName =
     ''/repos/info-tech-io/'' @ moduleName @ ''/contents/module.json?ref=main''"

text \<open>
  What the cache check at the head of \<^verbatim>\<open>scanModule\<close> finds in state \<open>s\<close>: the cached
  result if the key has an entry younger than \<open>cacheExpiry\<close> at the clock reading the check
  takes, nothing otherwise.
\<close>

definition cached_result :: "world \<Rightarrow> scanner \<Rightarrow> string \<Rightarrow> scan_result option" where
  "cached_result w s moduleName =
     (case cache s (cache_key moduleName) of
        None \<Rightarrow> None
      | Some cached \<Rightarrow>
          if clock w (ticks s) - timestamp cached < cacheExpiry then Some (data cached)
          else None)"

text \<open>The text of the module's own \<^verbatim>\<open>module.json\<close> that a fetch in state \<open>s\<close> brings.\<close>

definition descriptor_text :: "world \<Rightarrow> scanner \<Rightarrow> string \<Rightarrow> string option" where
  "descriptor_text w s moduleName =
     fst (getFileContent w ORG_NAME moduleName ''module.json'' ''main'' s)"

text \<open>The descriptor is absent: the fetch brings \<^verbatim>\<open>null\<close> or the empty string.\<close>

definition descriptor_absent :: "world \<Rightarrow> scanner \<Rightarrow> string \<Rightarrow> bool" where
  "descriptor_absent w s moduleName =
     (descriptor_text w s moduleName = None \<or> descriptor_text w s moduleName = Some [])"

text \<open>The entries of the central registry, in the order \<^verbatim>\<open>find\<close> visits them.\<close>

definition central_entries :: "world \<Rightarrow> jsval list" where
  "central_entries w = Object_values (opt_member (loadCentralModules w) ''modules'')"

text \<open>An entry of the central registry names the module as its \<^verbatim>\<open>content_repo\<close>.\<close>

definition matches :: "string \<Rightarrow> jsval \<Rightarrow> bool" where
  "matches moduleName m = (opt_member m ''content_repo'' = JStr moduleName)"

text \<open>A result read from the module's own \<^verbatim>\<open>module.json\<close>.\<close>

fun from_module_json :: "scan_result \<Rightarrow> bool" where
  "from_module_json (Success ModuleJson d) = True"
| "from_module_json r = False"

text \<open>The successful results of a scan, in order: repository, source and data.\<close>

fun successes :: "scanned list \<Rightarrow> (string \<times> source \<times> jsval) list" where
  "successes [] = []"
| "successes (r # rs) =
     (case outcome r of
        Success src d \<Rightarrow> (repository r, src, d) # successes rs
      | Failure error \<Rightarrow> successes rs)"


text \<open>The \<^verbatim>\<open>name\<close> of a catalog entry or of a descriptor.\<close>

definition name_of :: "jsval \<Rightarrow> jsval" where
  "name_of v = opt_member v ''name''"

text \<open>Every value in the scanner's cache is a result read from a \<^verbatim>\<open>module.json\<close>.\<close>

definition cache_clean :: "scanner \<Rightarrow> bool" where
  "cache_clean s = (\<forall>k e. cache s k = Some e \<longrightarrow> from_module_json (data e))"

fun is_string :: "jsval \<Rightarrow> bool" where
  "is_string (JStr s) = True"
| "is_string v = False"

text \<open>A value a template literal prints without throwing.\<close>

definition printable :: "jsval \<Rightarrow> bool" where
  "printable v = (case js_to_string v of Inr s \<Rightarrow> True | Inl e \<Rightarrow> False)"

text \<open>
  The values the convention checks interpolate or compare can be printed: so it is when
  they have the types of the documented schema (strings, and an array of strings for the
  tags), or are missing.
\<close>

definition conventions_printable :: "jsval \<Rightarrow> bool" where
  "conventions_printable d =
     (printable (opt_member (js_get d ''deployment'') ''subdomain'')
      \<and> printable (opt_member (js_get d ''deployment'') ''repository'')
      \<and> printable (opt_member (js_get d ''urls'') ''production'')
      \<and> printable (opt_member (js_get d ''hugo_config'') ''hugo_version'')
      \<and> printable (opt_member (opt_member (js_get d ''metadata'') ''tags'') ''length''))"




section \<open>An example organisation\<close>

text \<open>
  A small world to run the scanner in. The listing holds the given repository names;
  \<^verbatim>\<open>mod_a\<close>, \<^verbatim>\<open>mod_c\<close>, \<^verbatim>\<open>mod_d\<close>, \<^verbatim>\<open>mod_e\<close> and \<^verbatim>\<open>mod_x\<close> have a \<^verbatim>\<open>module.json\<close>, the
  request for that of \<^verbatim>\<open>mod_down\<close> fails in transport, and every other path answers
  404. File contents stand for themselves (decoding is the identity),
  and the parser knows the documents below and rejects every other text. The clock
  advances by 200 seconds from one reading to the next.
\<close>

definition descA :: jsval where
  "descA = JObj
     [(''name'', JStr ''linux-base''),
      (''title'', JStr ''Linux basics''),
      (''deployment'', JObj [(''subdomain'', JStr ''linux''), (''repository'', JStr ''mod_a'')]),
      (''metadata'', JObj [(''tags'', JArr [JStr ''linux''])])]"

definition descC :: jsval where
  "descC = JObj [(''name'', JStr ''docker-intro''), (''title'', JStr ''Docker'')]"

definition descD :: jsval where
  "descD = JObj [(''name'', JStr ''linux-base''), (''title'', JStr ''Linux again'')]"

definition central_linux :: jsval where
  "central_linux = JObj [(''name'', JStr ''linux-central''), (''content_repo'', JStr ''mod_a'')]"

definition central_docker :: jsval where
  "central_docker = JObj [(''name'', JStr ''docker''), (''content_repo'', JStr ''mod_docker'')]"

definition central_docker_old :: jsval where
  "central_docker_old =
     JObj [(''name'', JStr ''docker-old''), (''content_repo'', JStr ''mod_docker'')]"

definition central_x :: jsval where
  "central_x = JObj [(''name'', JStr ''x''), (''content_repo'', JStr ''mod_x'')]"

definition registry :: jsval where
  "registry = JObj
     [(''modules'', JObj
        [(''linux'', central_linux), (''docker'', central_docker),
         (''docker-old'', central_docker_old), (''x'', central_x)])]"

text \<open>A registry with a \<^verbatim>\<open>null\<close> in front of its entries.\<close>

definition holed_registry :: jsval where
  "holed_registry = JObj [(''modules'', JArr [JNull, central_docker, central_docker_old])]"

definition example_files :: "(string \<times> string) list" where
  "example_files =
     [(module_json_path ''mod_a'', ''A''), (module_json_path ''mod_c'', ''C''),
      (module_json_path ''mod_d'', ''D''), (module_json_path ''mod_e'', ''E''),
      (module_json_path ''mod_x'', ''{oops'')]"

definition example_parse :: "string list \<Rightarrow> string \<Rightarrow> string + jsval" where
  "example_parse listing text =
     (if text = ''<listing>'' then Inr (JArr (map (\<lambda>r. JObj [(''name'', JStr r)]) listing))
      else if text = ''<not found>'' then Inr (JObj [(''message'', JStr ''Not Found'')])
      else if take 6 text = ''<file>'' then Inr (JObj [(''content'', JStr (drop 6 text))])
      else if text = ''A'' then Inr descA
      else if text = ''C'' then Inr descC
      else if text = ''D'' then Inr descD
      else if text = ''E'' then Inr (JObj [])
      else if text = ''<central>'' then Inr registry
      else if text = ''<holed>'' then Inr holed_registry
      else Inl ''Unexpected token'')"

definition example_org :: "string list \<Rightarrow> world" where
  "example_org listing =
     \<lparr>http = (\<lambda>n path.
         if path = ''/orgs/info-tech-io/repos?type=all&per_page=100''
         then Response 200 ''<listing>''
         else if path = module_json_path ''mod_down'' then NetworkError ''socket hang up''
         else case map_of example_files path of
                Some text \<Rightarrow> Response 200 (''<file>'' @ text)
              | None \<Rightarrow> Response 404 ''<not found>''),
      clock = (\<lambda>n. 200000 * int n),
      JSON_parse = example_parse listing,
      Buffer_from = (\<lambda>v. case v of JStr text \<Rightarrow> Some text | _ \<Rightarrow> None),
      central_file = Some ''<central>''\<rparr>"


text \<open>The example organisation with the holed registry as its central file.\<close>

definition holed_org :: world where
  "holed_org = (example_org [])\<lparr>central_file := Some ''<holed>''\<rparr>"

text \<open>
  Descriptors with a value no template literal can print: a \<^verbatim>\<open>name\<close>, and a
  \<^verbatim>\<open>deployment.subdomain\<close>, that are objects with an own property \<^verbatim>\<open>toString\<close>.
\<close>

definition desc_unprintable_name :: jsval where
  "desc_unprintable_name = JObj
     [(''name'', JObj [(''toString'', JNum 1)]),
      (''deployment'', JObj [(''repository'', JStr ''mod_q'')])]"

definition desc_unprintable_subdomain :: jsval where
  "desc_unprintable_subdomain = JObj
     [(''name'', JStr ''linux-base''),
      (''deployment'', JObj [(''subdomain'', JObj [(''toString'', JNum 1)])])]"

text \<open>A descriptor whose \<^verbatim>\<open>deployment.subdomain\<close> is the empty string.\<close>

definition desc_empty_subdomain :: jsval where
  "desc_empty_subdomain =
     JObj [(''name'', JStr ''linux-base''), (''deployment'', JObj [(''subdomain'', JStr [])])]"

section \<open>What a call of scanModule does\<close>

lemma request_state [simp]: "snd (request w path s) = s\<lparr>requests := requests s @ [path]\<rparr>"
  by (simp add: request_def Let_def split: http_outcome.splits sum.splits)

lemma request_ticks [simp]: "fst (request w path (s\<lparr>ticks := t\<rparr>)) = fst (request w path s)"
  by (simp add: request_def Let_def split: http_outcome.splits sum.splits)

lemma getFileContent_state [simp]:
  "snd (getFileContent w ORG_NAME moduleName ''module.json'' ''main'' s)
     = s\<lparr>requests := requests s @ [module_json_path moduleName]\<rparr>"
proof -
  have p: "''/repos/'' @ ORG_NAME @ ''/'' @ moduleName @ ''/contents/'' @ ''module.json'' @ ''?ref='' @ ''main''
        = module_json_path moduleName"
    by (simp add: module_json_path_def ORG_NAME_def)
  obtain r s' where rq: "request w (module_json_path moduleName) s = (r, s')"
    by (cases "request w (module_json_path moduleName) s")
  from rq have "s' = s\<lparr>requests := requests s @ [module_json_path moduleName]\<rparr>"
    using request_state [of w "module_json_path moduleName" s] by simp
  then show ?thesis
    unfolding getFileContent_def p by (simp add: rq split: sum.splits)
qed

lemma getFileContent_eq:
  "getFileContent w ORG_NAME moduleName ''module.json'' ''main'' s
     = (descriptor_text w s moduleName,
        s\<lparr>requests := requests s @ [module_json_path moduleName]\<rparr>)"
  by (simp add: descriptor_text_def prod_eq_iff)

lemma descriptor_text_ticks [simp]:
  "descriptor_text w (s\<lparr>ticks := t\<rparr>) moduleName = descriptor_text w s moduleName"
proof -
  let ?p = "''/repos/'' @ ORG_NAME @ ''/'' @ moduleName @ ''/contents/'' @ ''module.json'' @ ''?ref='' @ ''main''"
  have "fst (request w ?p (s\<lparr>ticks := t\<rparr>)) = fst (request w ?p s)" by simp
  then show ?thesis
    unfolding descriptor_text_def getFileContent_def
    by (cases "request w ?p (s\<lparr>ticks := t\<rparr>)"; cases "request w ?p s") (auto split: sum.splits)
qed

lemma descriptor_absent_ticks [simp]:
  "descriptor_absent w (s\<lparr>ticks := t\<rparr>) moduleName = descriptor_absent w s moduleName"
  by (simp add: descriptor_absent_def)

lemma scanModule_uncached_absent:
  assumes "descriptor_absent w s n"
  shows "scanModule_uncached w n s
           = ((case central_fallback w n of Inl e \<Rightarrow> Failure (message e) | Inr r \<Rightarrow> r),
              s\<lparr>requests := requests s @ [module_json_path n]\<rparr>)"
  using assms
  by (auto simp: scanModule_uncached_def scanModule_try_def getFileContent_eq
        descriptor_absent_def split: sum.splits)

lemma scanModule_uncached_unparsable:
  assumes "descriptor_text w s n = Some c" "c \<noteq> []" "JSON_parse w c = Inl m"
  shows "scanModule_uncached w n s
           = (Failure m, s\<lparr>requests := requests s @ [module_json_path n]\<rparr>)"
  using assms
  by (simp add: scanModule_uncached_def scanModule_try_def getFileContent_eq)

lemma scanModule_uncached_parsed:
  assumes "descriptor_text w s n = Some c" "c \<noteq> []" "JSON_parse w c = Inr d"
  shows "scanModule_uncached w n s
           = (Success ModuleJson d,
              s\<lparr>requests := requests s @ [module_json_path n],
                ticks := Suc (ticks s),
                cache := (cache s)(cache_key n \<mapsto>
                   \<lparr>data = Success ModuleJson d, timestamp = clock w (ticks s)\<rparr>)\<rparr>)"
  using assms
  by (simp add: scanModule_uncached_def scanModule_try_def getFileContent_eq Date_now_def
        cache_key_def)

lemma scanModule_hit:
  assumes "cached_result w s n = Some r"
  shows "scanModule w n s = (r, s\<lparr>ticks := Suc (ticks s)\<rparr>)"
  using assms
  by (auto simp: scanModule_def cached_result_def cache_key_def Date_now_def
        split: option.splits if_splits)

lemma scanModule_miss:
  assumes "cached_result w s n = None"
  shows "scanModule w n s
           = scanModule_uncached w n
               (if cache s (cache_key n) = None then s else s\<lparr>ticks := Suc (ticks s)\<rparr>)"
  using assms
  by (auto simp: scanModule_def cached_result_def cache_key_def Date_now_def
        split: option.splits if_splits)

lemma scanModule_uncached_cases:
  obtains (absent) "descriptor_absent w s n"
  | (unparsable) c m where "descriptor_text w s n = Some c" "c \<noteq> []" "JSON_parse w c = Inl m"
  | (parsed) c d where "descriptor_text w s n = Some c" "c \<noteq> []" "JSON_parse w c = Inr d"
proof (cases "descriptor_text w s n")
  case None
  then show ?thesis using absent by (simp add: descriptor_absent_def)
next
  case (Some c)
  show ?thesis
  proof (cases "c = []")
    case True
    with Some show ?thesis using absent by (simp add: descriptor_absent_def)
  next
    case False
    with Some show ?thesis using unparsable parsed by (cases "JSON_parse w c") auto
  qed
qed

lemma scanModule_uncached_cache:
  assumes "cache (snd (scanModule_uncached w n s)) k = Some e"
  shows "cache s k = Some e \<or> from_module_json (data e)"
proof (cases rule: scanModule_uncached_cases [of w s n])
  case absent
  with assms show ?thesis by (simp add: scanModule_uncached_absent)
next
  case (unparsable c m)
  with assms show ?thesis by (simp add: scanModule_uncached_unparsable)
next
  case (parsed c d)
  with assms show ?thesis by (auto simp: scanModule_uncached_parsed split: if_splits)
qed

lemma scanModule_cache:
  assumes "cache (snd (scanModule w n s)) k = Some e"
  shows "cache s k = Some e \<or> from_module_json (data e)"
proof (cases "cached_result w s n")
  case None
  with assms show ?thesis
    using scanModule_uncached_cache [of w n s k e]
      scanModule_uncached_cache [of w n "s\<lparr>ticks := Suc (ticks s)\<rparr>" k e]
    by (auto simp: scanModule_miss split: if_splits)
next
  case (Some r)
  with assms show ?thesis by (simp add: scanModule_hit)
qed

lemma scanModule_clean: "cache_clean s \<Longrightarrow> cache_clean (snd (scanModule w n s))"
  unfolding cache_clean_def using scanModule_cache by blast

lemma scan_repos_Cons_snd:
  "snd (scan_repos w (repo # repos) s)
     = snd (scan_repos w repos (snd (scanModule w (repo_name repo) s)))"
  by (simp add: case_prod_beta)


lemma scan_repos_clean: "cache_clean s \<Longrightarrow> cache_clean (snd (scan_repos w repos s))"
proof (induction repos arbitrary: s)
  case Nil
  then show ?case by simp
next
  case (Cons repo repos)
  from Cons.prems have "cache_clean (snd (scanModule w (repo_name repo) s))"
    by (rule scanModule_clean)
  from Cons.IH [OF this] show ?case
    by (simp only: scan_repos_Cons_snd)
qed

lemma ModuleScanner_clean: "cache_clean ModuleScanner"
  by (simp add: cache_clean_def ModuleScanner_def)

section \<open>The cache holds module.json results only\<close>

text \<open>
  C6. The only \<^verbatim>\<open>cache.set\<close> of the scanner stores a successful result read from a
  \<^verbatim>\<open>module.json\<close>. A call of \<^verbatim>\<open>scanModule\<close> leaves every cache entry as it was or
  replaces it by such a result, so that neither a central result nor a failure is ever
  cached; and after any run of calls on a new scanner the cache holds nothing else.
\<close>

theorem cache_only_module_json:
  "(cache (snd (scanModule w moduleName s)) k = Some e
      \<longrightarrow> cache s k = Some e \<or> from_module_json (data e))
   \<and> (cache (snd (scan_repos w repos ModuleScanner)) k = Some e
      \<longrightarrow> from_module_json (data e))"
proof -
  have "cache_clean (snd (scan_repos w repos ModuleScanner))"
    using ModuleScanner_clean by (rule scan_repos_clean)
  then show ?thesis
    using scanModule_cache [of w moduleName s k e] by (auto simp: cache_clean_def)
qed

theorem cache_only_module_json_witness:
  "cache (snd (scanModule (example_org []) ''mod_a'' ModuleScanner)) (cache_key ''mod_a'')
     = Some \<lparr>data = Success ModuleJson descA, timestamp = 0\<rparr>
   \<and> cache (snd (scan_repos (example_org [])
          [JObj [(''name'', JStr ''mod_a'')], JObj [(''name'', JStr ''mod_docker'')],
           JObj [(''name'', JStr ''mod_b'')]] ModuleScanner)) (cache_key ''mod_a'')
     = Some \<lparr>data = Success ModuleJson descA, timestamp = 0\<rparr>
   \<and> from_module_json (data \<lparr>data = Success ModuleJson descA, timestamp = 0\<rparr>)"
proof -
  have step: "cache (snd (scanModule (example_org []) ''mod_a'' ModuleScanner)) (cache_key ''mod_a'')
     = Some \<lparr>data = Success ModuleJson descA, timestamp = 0\<rparr>"
    by code_simp
  have run: "cache (snd (scan_repos (example_org [])
          [JObj [(''name'', JStr ''mod_a'')], JObj [(''name'', JStr ''mod_docker'')],
           JObj [(''name'', JStr ''mod_b'')]] ModuleScanner)) (cache_key ''mod_a'')
     = Some \<lparr>data = Success ModuleJson descA, timestamp = 0\<rparr>"
    by code_simp
  from step run
    cache_only_module_json [where w = "example_org []" and moduleName = "''mod_a''"
      and s = ModuleScanner and k = "cache_key ''mod_a''"
      and e = "\<lparr>data = Success ModuleJson descA, timestamp = 0\<rparr>"
      and repos = "[JObj [(''name'', JStr ''mod_a'')], JObj [(''name'', JStr ''mod_docker'')],
           JObj [(''name'', JStr ''mod_b'')]]"]
  show ?thesis by blast
qed

section \<open>The central fallback\<close>

lemma strict_eq_JStr [simp]: "strict_eq a (JStr n) = (a = JStr n)"
  by (cases a) auto

lemma matches_obj: "matches n m \<Longrightarrow> \<exists>kvs. m = JObj kvs"
  by (cases m) (auto simp: matches_def opt_member_def split: if_splits)

lemma matches_truthy: "matches n m \<Longrightarrow> truthy m \<and> \<not> nullish m"
  by (auto dest: matches_obj)

lemma member_content_repo:
  "\<not> nullish x \<Longrightarrow> member x ''content_repo'' = Inr (opt_member x ''content_repo'')"
  by (simp add: member_def opt_member_def)

lemma find_content_repo_first:
  assumes "\<forall>x\<in>set before. \<not> nullish x \<and> \<not> matches n x" and "matches n m"
  shows "find_content_repo n (before @ m # after) = Inr m"
  using assms
proof (induction before)
  case Nil
  then show ?case
    using matches_truthy [of n m] by (simp add: member_content_repo) (simp add: matches_def)
next
  case (Cons x before)
  then show ?case by (simp add: member_content_repo) (simp add: matches_def)
qed

lemma find_content_repo_found:
  assumes "find_content_repo n xs = Inr m" and "truthy m"
  shows "\<exists>before after. xs = before @ m # after \<and> (\<forall>x\<in>set before. \<not> matches n x) \<and> matches n m"
  using assms
proof (induction xs)
  case Nil
  then show ?case by simp
next
  case (Cons x xs)
  show ?case
  proof (cases "nullish x")
    case True
    with Cons.prems show ?thesis by (simp add: member_def)
  next
    case nn: False
    show ?thesis
    proof (cases "matches n x")
      case True
      with nn Cons.prems have "m = x" by (simp add: member_content_repo matches_def)
      with True have "x # xs = [] @ m # xs \<and> (\<forall>y\<in>set []. \<not> matches n y) \<and> matches n m" by simp
      then show ?thesis by blast
    next
      case False
      with nn Cons.prems have "find_content_repo n xs = Inr m"
        by (simp add: member_content_repo matches_def)
      from Cons.IH [OF this Cons.prems(2)] obtain before after
        where "xs = before @ m # after" "\<forall>y\<in>set before. \<not> matches n y" "matches n m" by blast
      with False have "x # xs = (x # before) @ m # after \<and> (\<forall>y\<in>set (x # before). \<not> matches n y)
          \<and> matches n m" by simp
      then show ?thesis by blast
    qed
  qed
qed

lemma find_content_repo_none:
  assumes "find_content_repo n xs = Inr m" and "\<not> truthy m"
  shows "\<forall>x\<in>set xs. \<not> matches n x"
  using assms
proof (induction xs)
  case Nil
  then show ?case by simp
next
  case (Cons x xs)
  show ?case
  proof (cases "nullish x")
    case True
    with Cons.prems show ?thesis by (simp add: member_def)
  next
    case nn: False
    show ?thesis
    proof (cases "matches n x")
      case True
      with nn Cons.prems have "m = x" by (simp add: member_content_repo matches_def)
      with True Cons.prems(2) show ?thesis using matches_truthy by blast
    next
      case False
      with nn Cons.prems have "find_content_repo n xs = Inr m"
        by (simp add: member_content_repo matches_def)
      from Cons.IH [OF this Cons.prems(2)] False show ?thesis by simp
    qed
  qed
qed

lemma find_content_repo_no_match:
  "\<forall>x\<in>set xs. \<not> nullish x \<and> \<not> matches n x \<Longrightarrow> find_content_repo n xs = Inr JUndefined"
  by (induction xs) (auto simp: member_content_repo matches_def)

lemma cannot_read_neq [simp]: "cannot_read v k \<noteq> ''No configuration found''"
  by (simp add: cannot_read_def)

lemma find_content_repo_error:
  "find_content_repo n xs = Inl e \<Longrightarrow> message e \<noteq> ''No configuration found''"
  by (induction xs) (auto simp: member_def split: if_splits)

lemma falsy_no_values: "\<not> truthy v \<Longrightarrow> Object_values v = []"
  by (cases v) auto

lemma central_fallback_eq:
  "central_fallback w n =
     (if nullish (loadCentralModules w)
      then Inl (TypeError (cannot_read (loadCentralModules w) ''modules''))
      else if truthy (opt_member (loadCentralModules w) ''modules'')
      then (case find_content_repo n (central_entries w) of
              Inl e \<Rightarrow> Inl e
            | Inr m \<Rightarrow> if truthy m then Inr (Success Central m)
                       else Inr (Failure ''No configuration found''))
      else Inr (Failure ''No configuration found''))"
  by (simp add: central_fallback_def member_def opt_member_def central_entries_def Let_def)

lemma scanModule_absent:
  assumes "cached_result w s n = None" and "descriptor_absent w s n"
  shows "scanModule w n s
           = ((case central_fallback w n of Inl e \<Rightarrow> Failure (message e) | Inr r \<Rightarrow> r),
              (if cache s (cache_key n) = None then s else s\<lparr>ticks := Suc (ticks s)\<rparr>)
                \<lparr>requests := requests s @ [module_json_path n]\<rparr>)"
  using assms by (simp add: scanModule_miss scanModule_uncached_absent)

lemma central_entries_nonempty:
  assumes "central_entries w \<noteq> []"
  shows "\<not> nullish (loadCentralModules w) \<and> truthy (opt_member (loadCentralModules w) ''modules'')"
proof -
  have t: "truthy (opt_member (loadCentralModules w) ''modules'')"
    using assms falsy_no_values unfolding central_entries_def by blast
  then have "\<not> nullish (loadCentralModules w)" by (auto simp: opt_member_def)
  with t show ?thesis by simp
qed

lemma fallback_first_match:
  assumes "central_entries w = before @ m # after"
      and "\<forall>x\<in>set before. \<not> nullish x \<and> \<not> matches n x" and "matches n m"
  shows "central_fallback w n = Inr (Success Central m)"
proof -
  from assms(1) have "central_entries w \<noteq> []" by simp
  from central_entries_nonempty [OF this] assms show ?thesis
    using find_content_repo_first [of before n m after] matches_truthy [of n m]
    by (simp add: central_fallback_eq)
qed

lemma fallback_central_found:
  assumes "central_fallback w n = Inr (Success Central m)"
  shows "\<exists>before after. central_entries w = before @ m # after
           \<and> (\<forall>x\<in>set before. \<not> matches n x) \<and> matches n m"
  using assms find_content_repo_found [of n "central_entries w" m]
  by (auto simp: central_fallback_eq split: if_splits sum.splits)

lemma fallback_not_found:
  assumes "(case central_fallback w n of Inl e \<Rightarrow> Failure (message e) | Inr r \<Rightarrow> r)
             = Failure ''No configuration found''"
  shows "\<forall>x\<in>set (central_entries w). \<not> matches n x"
proof (cases "truthy (opt_member (loadCentralModules w) ''modules'')")
  case False
  then show ?thesis by (simp add: central_entries_def falsy_no_values)
next
  case True
  then have nn: "\<not> nullish (loadCentralModules w)" by (auto simp: opt_member_def)
  show ?thesis
  proof (cases "find_content_repo n (central_entries w)")
    case (Inl e)
    with assms True nn find_content_repo_error [OF Inl] show ?thesis
      by (simp add: central_fallback_eq)
  next
    case (Inr m)
    with assms True nn have "\<not> truthy m"
      by (auto simp: central_fallback_eq split: if_splits)
    with Inr show ?thesis by (rule find_content_repo_none)
  qed
qed

lemma fallback_no_match:
  assumes "\<not> nullish (loadCentralModules w)"
      and "\<forall>x\<in>set (central_entries w). \<not> nullish x \<and> \<not> matches n x"
  shows "central_fallback w n = Inr (Failure ''No configuration found'')"
  using assms find_content_repo_no_match [of "central_entries w" n]
  by (simp add: central_fallback_eq)

section \<open>Which central entry the fallback returns\<close>

text \<open>
  C10, as amended. When \<^verbatim>\<open>scanModule\<close> reaches the fallback (nothing usable in the
  cache, no descriptor of the module's own), the central registry holds several entries
  whose \<^verbatim>\<open>content_repo\<close> is the module's repository name, and nothing in front of the
  first of them is \<^verbatim>\<open>null\<close>, the result is that first entry in the order of
  \<^verbatim>\<open>Object.values\<close>: the entry \<open>m\<close> that matches after entries \<open>before\<close> that do not is
  returned whatever follows it. And whatever the registry holds, the entry a central
  result carries has no match in front of it: a later match is never returned.
\<close>

theorem central_first_match:
  assumes "cached_result w s moduleName = None" and "descriptor_absent w s moduleName"
  shows "(central_entries w = before @ m # after
            \<and> (\<forall>x\<in>set before. \<not> nullish x \<and> \<not> matches moduleName x) \<and> matches moduleName m
          \<longrightarrow> fst (scanModule w moduleName s) = Success Central m)
       \<and> (fst (scanModule w moduleName s) = Success Central m'
          \<longrightarrow> (\<exists>before' after'. central_entries w = before' @ m' # after'
                 \<and> (\<forall>x\<in>set before'. \<not> matches moduleName x) \<and> matches moduleName m'))"
proof (intro conjI impI)
  assume "central_entries w = before @ m # after
            \<and> (\<forall>x\<in>set before. \<not> nullish x \<and> \<not> matches moduleName x) \<and> matches moduleName m"
  then have "central_fallback w moduleName = Inr (Success Central m)"
    using fallback_first_match by blast
  then show "fst (scanModule w moduleName s) = Success Central m"
    by (simp add: scanModule_absent [OF assms])
next
  assume r: "fst (scanModule w moduleName s) = Success Central m'"
  then have "central_fallback w moduleName = Inr (Success Central m')"
    by (simp add: scanModule_absent [OF assms] split: sum.splits)
  then show "\<exists>before' after'. central_entries w = before' @ m' # after'
                 \<and> (\<forall>x\<in>set before'. \<not> matches moduleName x) \<and> matches moduleName m'"
    by (rule fallback_central_found)
qed

theorem central_first_match_witness:
  "cached_result (example_org []) ModuleScanner ''mod_docker'' = None
   \<and> descriptor_absent (example_org []) ModuleScanner ''mod_docker''
   \<and> central_entries (example_org []) = [central_linux] @ central_docker # [central_docker_old, central_x]
   \<and> \<not> nullish central_linux \<and> \<not> matches ''mod_docker'' central_linux
   \<and> matches ''mod_docker'' central_docker \<and> matches ''mod_docker'' central_docker_old
   \<and> fst (scanModule (example_org []) ''mod_docker'' ModuleScanner) = Success Central central_docker"
proof -
  have miss: "cached_result (example_org []) ModuleScanner ''mod_docker'' = None"
    by code_simp
  have absent: "descriptor_absent (example_org []) ModuleScanner ''mod_docker''"
    by code_simp
  have entries: "central_entries (example_org [])
      = [central_linux] @ central_docker # [central_docker_old, central_x]"
    by code_simp
  have before: "\<forall>x\<in>set [central_linux]. \<not> nullish x \<and> \<not> matches ''mod_docker'' x"
    by code_simp
  have m: "matches ''mod_docker'' central_docker" "matches ''mod_docker'' central_docker_old"
    by code_simp+
  from central_first_match [OF miss absent, where before = "[central_linux]"
      and m = central_docker and after = "[central_docker_old, central_x]"
      and m' = central_docker] entries before m
  have "fst (scanModule (example_org []) ''mod_docker'' ModuleScanner) = Success Central central_docker"
    by blast
  with miss absent entries before m show ?thesis by simp
qed

text \<open>
  C10 as stated fails where a \<^verbatim>\<open>null\<close> stands in front of the matching entries: the
  callback of \<^verbatim>\<open>find\<close> throws on it, and the result is the failure carrying the
  TypeError's message, not the first match.
\<close>

theorem null_entry_counterexample:
  "cached_result holed_org ModuleScanner ''mod_docker'' = None
   \<and> descriptor_absent holed_org ModuleScanner ''mod_docker''
   \<and> central_entries holed_org = [JNull, central_docker, central_docker_old]
   \<and> matches ''mod_docker'' central_docker
   \<and> matches ''mod_docker'' central_docker_old
   \<and> fst (scanModule holed_org ''mod_docker'' ModuleScanner)
       = Failure (cannot_read JNull ''content_repo'')
   \<and> fst (scanModule holed_org ''mod_docker'' ModuleScanner) \<noteq> Success Central central_docker"
  by code_simp

lemma scanModule_unparsable:
  assumes "cached_result w s n = None"
      and "descriptor_text w s n = Some c" "c \<noteq> []" "JSON_parse w c = Inl m"
  shows "fst (scanModule w n s) = Failure m"
  using assms by (simp add: scanModule_miss scanModule_uncached_unparsable)


section \<open>Absent and unparsable descriptors\<close>

text \<open>
  C2, as amended. On a cache miss, a module whose own descriptor is absent (the fetch
  brings \<^verbatim>\<open>null\<close> or the empty string) is resolved by the central registry: if the
  registry's entries are objects and one of them names the module, the result is a central
  result carrying such an entry; the result is
  \<^verbatim>\<open>{success: false, error: 'No configuration found'}\<close> only if no entry names the module,
  and it is that failure whenever the registry is readable and no entry names the module.
  A descriptor whose text does not parse is not treated like an absent one: the result is
  the failure carrying the parser's message, whatever the registry holds.
\<close>

theorem absent_descriptor_falls_back:
  assumes "cached_result w s moduleName = None"
  shows "(descriptor_absent w s moduleName \<longrightarrow>
            ((\<forall>x\<in>set (central_entries w). \<not> nullish x)
               \<and> (\<exists>x\<in>set (central_entries w). matches moduleName x)
             \<longrightarrow> (\<exists>m\<in>set (central_entries w). matches moduleName m
                    \<and> fst (scanModule w moduleName s) = Success Central m))
          \<and> (fst (scanModule w moduleName s) = Failure ''No configuration found''
             \<longrightarrow> (\<forall>x\<in>set (central_entries w). \<not> matches moduleName x))
          \<and> (\<not> nullish (loadCentralModules w)
               \<and> (\<forall>x\<in>set (central_entries w). \<not> nullish x \<and> \<not> matches moduleName x)
             \<longrightarrow> fst (scanModule w moduleName s) = Failure ''No configuration found''))
       \<and> (descriptor_text w s moduleName = Some c \<and> c \<noteq> [] \<and> JSON_parse w c = Inl msg
          \<longrightarrow> fst (scanModule w moduleName s) = Failure msg)"
proof (intro conjI impI)
  assume absent: "descriptor_absent w s moduleName"
    and e: "(\<forall>x\<in>set (central_entries w). \<not> nullish x)
               \<and> (\<exists>x\<in>set (central_entries w). matches moduleName x)"
  then obtain before m after where split: "central_entries w = before @ m # after"
    and m: "matches moduleName m" and b: "\<forall>y\<in>set before. \<not> matches moduleName y"
    using split_list_first_prop [of "central_entries w" "matches moduleName"] by blast
  from e split have "\<forall>y\<in>set before. \<not> nullish y" by simp
  with b have "\<forall>y\<in>set before. \<not> nullish y \<and> \<not> matches moduleName y" by simp
  from fallback_first_match [OF split this m]
  have "fst (scanModule w moduleName s) = Success Central m"
    by (simp add: scanModule_absent [OF assms absent])
  with split m show "\<exists>m\<in>set (central_entries w). matches moduleName m
                    \<and> fst (scanModule w moduleName s) = Success Central m"
    by auto
next
  assume absent: "descriptor_absent w s moduleName"
    and "fst (scanModule w moduleName s) = Failure ''No configuration found''"
  then show "\<forall>x\<in>set (central_entries w). \<not> matches moduleName x"
    using fallback_not_found [of w moduleName] by (simp add: scanModule_absent [OF assms absent])
next
  assume absent: "descriptor_absent w s moduleName"
    and "\<not> nullish (loadCentralModules w)
               \<and> (\<forall>x\<in>set (central_entries w). \<not> nullish x \<and> \<not> matches moduleName x)"
  then show "fst (scanModule w moduleName s) = Failure ''No configuration found''"
    using fallback_no_match [of w moduleName] by (simp add: scanModule_absent [OF assms absent])
next
  assume "descriptor_text w s moduleName = Some c \<and> c \<noteq> [] \<and> JSON_parse w c = Inl msg"
  then show "fst (scanModule w moduleName s) = Failure msg"
    using scanModule_unparsable [OF assms] by blast
qed

theorem absent_descriptor_falls_back_witness:
  "cached_result (example_org []) ModuleScanner ''mod_docker'' = None
   \<and> descriptor_absent (example_org []) ModuleScanner ''mod_docker''
   \<and> fst (scanModule (example_org []) ''mod_docker'' ModuleScanner) = Success Central central_docker
   \<and> cached_result (example_org []) ModuleScanner ''mod_b'' = None
   \<and> descriptor_absent (example_org []) ModuleScanner ''mod_b''
   \<and> fst (scanModule (example_org []) ''mod_b'' ModuleScanner) = Failure ''No configuration found''
   \<and> cached_result (example_org []) ModuleScanner ''mod_x'' = None
   \<and> descriptor_text (example_org []) ModuleScanner ''mod_x'' = Some ''{oops''
   \<and> JSON_parse (example_org []) ''{oops'' = Inl ''Unexpected token''
   \<and> fst (scanModule (example_org []) ''mod_x'' ModuleScanner) = Failure ''Unexpected token''"
proof -
  let ?w = "example_org []"
  have miss: "cached_result ?w ModuleScanner ''mod_docker'' = None"
    "cached_result ?w ModuleScanner ''mod_b'' = None"
    "cached_result ?w ModuleScanner ''mod_x'' = None"
    by code_simp+
  have absent: "descriptor_absent ?w ModuleScanner ''mod_docker''"
    "descriptor_absent ?w ModuleScanner ''mod_b''"
    by code_simp+
  have entries: "central_entries ?w = [central_linux, central_docker, central_docker_old, central_x]"
    by code_simp
  have objs: "\<forall>x\<in>set (central_entries ?w). \<not> nullish x"
    unfolding entries by code_simp
  have reg: "\<not> nullish (loadCentralModules ?w)" by code_simp
  have docker: "matches ''mod_docker'' central_docker" "\<not> matches ''mod_docker'' central_linux"
    "\<not> matches ''mod_docker'' central_x"
    by code_simp+
  have none: "\<forall>x\<in>set (central_entries ?w). \<not> nullish x \<and> \<not> matches ''mod_b'' x"
    unfolding entries by code_simp
  have x: "descriptor_text ?w ModuleScanner ''mod_x'' = Some ''{oops''"
    "JSON_parse ?w ''{oops'' = Inl ''Unexpected token''"
    by code_simp+
  have r1: "fst (scanModule ?w ''mod_docker'' ModuleScanner) = Success Central central_docker"
  proof -
    from absent_descriptor_falls_back [OF miss(1)] absent(1) objs docker(1) entries
    obtain m where "m \<in> set (central_entries ?w)" "matches ''mod_docker'' m"
      "fst (scanModule ?w ''mod_docker'' ModuleScanner) = Success Central m"
      by (metis list.set_intros(1,2))
    then show ?thesis by code_simp
  qed
  have r2: "fst (scanModule ?w ''mod_b'' ModuleScanner) = Failure ''No configuration found''"
    using absent_descriptor_falls_back [OF miss(2)] absent(2) reg none by blast
  have r3: "fst (scanModule ?w ''mod_x'' ModuleScanner) = Failure ''Unexpected token''"
    using absent_descriptor_falls_back [OF miss(3), of "''{oops''" "''Unexpected token''"] x
    by simp
  from miss absent x r1 r2 r3 show ?thesis by simp
qed

text \<open>
  C2 as stated fails: the text of \<^verbatim>\<open>mod_x\<close>'s descriptor does not parse and the central
  registry has an entry for \<^verbatim>\<open>mod_x\<close>, yet the result is the failure with the parser's
  message, not the central entry.
\<close>

theorem unparsable_descriptor_counterexample:
  "cached_result (example_org []) ModuleScanner ''mod_x'' = None
   \<and> descriptor_text (example_org []) ModuleScanner ''mod_x'' = Some ''{oops''
   \<and> JSON_parse (example_org []) ''{oops'' = Inl ''Unexpected token''
   \<and> central_entries (example_org [])
       = [central_linux, central_docker, central_docker_old, central_x]
   \<and> matches ''mod_x'' central_x
   \<and> fst (scanModule (example_org []) ''mod_x'' ModuleScanner) = Failure ''Unexpected token''
   \<and> fst (scanModule (example_org []) ''mod_x'' ModuleScanner) \<noteq> Success Central central_x"
  by code_simp

section \<open>Catalog entries\<close>

lemma map_of_assign_same [simp]: "map_of (assign kvs k v) k = Some v"
  by (induction kvs) auto

lemma map_of_assign_other: "k' \<noteq> k \<Longrightarrow> map_of (assign kvs k v) k' = map_of kvs k'"
  by (induction kvs) auto

lemma is_string_not_nullish: "is_string (js_get d k) \<Longrightarrow> \<not> nullish d"
  by (cases d) auto


lemma convert_string_name:
  assumes "is_string (js_get d ''name'')"
  shows "\<exists>e. convertToLegacyFormat d = Inr e"
proof -
  from assms obtain n where n: "js_get d ''name'' = JStr n" by (cases "js_get d ''name''") auto
  then have "\<not> nullish d" by (cases d) auto
  with n show ?thesis by (simp add: convertToLegacyFormat_def Let_def)
qed



section \<open>The module's own descriptor comes first\<close>



section \<open>Cache hits and expiry\<close>

lemma central_fallback_not_module_json:
  "(case central_fallback w n of Inl e \<Rightarrow> Failure (message e) | Inr r \<Rightarrow> r) \<noteq> Success ModuleJson d"
  by (auto simp: central_fallback_eq split: sum.splits)

lemma scanModule_uncached_requests:
  "requests (snd (scanModule_uncached w n s)) = requests s @ [module_json_path n]"
  by (cases rule: scanModule_uncached_cases [of w s n])
     (simp_all add: scanModule_uncached_absent scanModule_uncached_unparsable
        scanModule_uncached_parsed)

lemma scanModule_uncached_module_json:
  assumes "scanModule_uncached w n s = (Success ModuleJson d, s1)"
  shows "s1 = s\<lparr>requests := requests s @ [module_json_path n],
                ticks := Suc (ticks s),
                cache := (cache s)(cache_key n \<mapsto>
                   \<lparr>data = Success ModuleJson d, timestamp = clock w (ticks s)\<rparr>)\<rparr>"
proof (cases rule: scanModule_uncached_cases [of w s n])
  case absent
  with assms show ?thesis
    using central_fallback_not_module_json [of w n d]
    by (simp add: scanModule_uncached_absent)
next
  case (unparsable c m)
  with assms show ?thesis by (simp add: scanModule_uncached_unparsable)
next
  case (parsed c d')
  with assms show ?thesis by (auto simp: scanModule_uncached_parsed)
qed

lemma scanModule_miss_requests:
  assumes "cached_result w s n = None"
  shows "requests (snd (scanModule w n s)) = requests s @ [module_json_path n]"
  using assms by (simp add: scanModule_miss scanModule_uncached_requests)

text \<open>
  C4, as amended. Let a resolution that misses the cache return a result read from the
  module's own \<^verbatim>\<open>module.json\<close>, the only kind of result that is cached. It issued one
  request and left the result in the cache, stamped with the clock reading taken at
  insertion. In any later state \<open>s2\<close> that still holds this entry, a resolution whose
  clock reading is less than \<open>cacheExpiry\<close> (5 minutes) after the stamp returns the cached
  result and issues no request, and one whose reading is \<open>cacheExpiry\<close> or more after the
  stamp issues a new request.
\<close>

theorem cached_descriptor_skips_fetch:
  assumes "cached_result w s moduleName = None"
      and "scanModule w moduleName s = (Success ModuleJson d, s1)"
      and "cache s2 (cache_key moduleName) = cache s1 (cache_key moduleName)"
  shows "requests s1 = requests s @ [module_json_path moduleName]
       \<and> cache s1 (cache_key moduleName)
           = Some \<lparr>data = Success ModuleJson d, timestamp = clock w (ticks s1 - 1)\<rparr>
       \<and> (clock w (ticks s2) - clock w (ticks s1 - 1) < cacheExpiry
          \<longrightarrow> fst (scanModule w moduleName s2) = Success ModuleJson d
              \<and> requests (snd (scanModule w moduleName s2)) = requests s2)
       \<and> (cacheExpiry \<le> clock w (ticks s2) - clock w (ticks s1 - 1)
          \<longrightarrow> requests (snd (scanModule w moduleName s2))
                = requests s2 @ [module_json_path moduleName])"
proof -
  let ?s' = "if cache s (cache_key moduleName) = None then s else s\<lparr>ticks := Suc (ticks s)\<rparr>"
  from assms(1,2) have "scanModule_uncached w moduleName ?s' = (Success ModuleJson d, s1)"
    by (simp add: scanModule_miss)
  from scanModule_uncached_module_json [OF this]
  have s1: "s1 = ?s'\<lparr>requests := requests ?s' @ [module_json_path moduleName],
                ticks := Suc (ticks ?s'),
                cache := (cache ?s')(cache_key moduleName \<mapsto>
                   \<lparr>data = Success ModuleJson d, timestamp = clock w (ticks ?s')\<rparr>)\<rparr>" .
  then have rq: "requests s1 = requests s @ [module_json_path moduleName]"
    by (simp split: if_splits)
  from s1 have entry: "cache s1 (cache_key moduleName)
           = Some \<lparr>data = Success ModuleJson d, timestamp = clock w (ticks s1 - 1)\<rparr>"
    by (simp split: if_splits)
  with assms(3) have entry2: "cache s2 (cache_key moduleName)
           = Some \<lparr>data = Success ModuleJson d, timestamp = clock w (ticks s1 - 1)\<rparr>"
    by simp
  have hit: "fst (scanModule w moduleName s2) = Success ModuleJson d
              \<and> requests (snd (scanModule w moduleName s2)) = requests s2"
    if "clock w (ticks s2) - clock w (ticks s1 - 1) < cacheExpiry"
  proof -
    from that entry2 have "cached_result w s2 moduleName = Some (Success ModuleJson d)"
      by (simp add: cached_result_def)
    then show ?thesis by (simp add: scanModule_hit)
  qed
  have expired: "requests (snd (scanModule w moduleName s2))
                = requests s2 @ [module_json_path moduleName]"
    if "cacheExpiry \<le> clock w (ticks s2) - clock w (ticks s1 - 1)"
  proof -
    from that entry2 have "cached_result w s2 moduleName = None"
      by (simp add: cached_result_def)
    then show ?thesis by (rule scanModule_miss_requests)
  qed
  from rq entry hit expired show ?thesis by blast
qed

theorem cached_descriptor_skips_fetch_witness:
  "cached_result (example_org []) ModuleScanner ''mod_a'' = None
   \<and> fst (scanModule (example_org []) ''mod_a'' ModuleScanner) = Success ModuleJson descA
   \<and> requests (snd (scanModule (example_org []) ''mod_a'' ModuleScanner))
       = [module_json_path ''mod_a'']
   \<and> clock (example_org []) 1 - clock (example_org []) 0 < cacheExpiry
   \<and> requests (snd (scanModule (example_org []) ''mod_a''
        (snd (scanModule (example_org []) ''mod_a'' ModuleScanner))))
       = [module_json_path ''mod_a'']
   \<and> cacheExpiry \<le> clock (example_org []) 2 - clock (example_org []) 0
   \<and> requests (snd (scanModule (example_org []) ''mod_a''
        (snd (scanModule (example_org []) ''mod_a''
          (snd (scanModule (example_org []) ''mod_a'' ModuleScanner))))))
       = [module_json_path ''mod_a'', module_json_path ''mod_a'']"
proof -
  let ?w = "example_org []"
  let ?s1 = "snd (scanModule ?w ''mod_a'' ModuleScanner)"
  let ?s2 = "snd (scanModule ?w ''mod_a'' ?s1)"
  have miss: "cached_result ?w ModuleScanner ''mod_a'' = None" by code_simp
  have r: "fst (scanModule ?w ''mod_a'' ModuleScanner) = Success ModuleJson descA" by code_simp
  then have first: "scanModule ?w ''mod_a'' ModuleScanner = (Success ModuleJson descA, ?s1)"
    by (simp add: prod_eq_iff)
  have kept: "cache ?s2 (cache_key ''mod_a'') = cache ?s1 (cache_key ''mod_a'')" by code_simp
  have t0: "ModuleScanner = ModuleScanner" "requests ModuleScanner = []"
    by (simp_all add: ModuleScanner_def)
  have t1: "ticks ?s1 = 1" by code_simp
  have t2: "ticks ?s2 = 2" by code_simp
  have fresh: "clock ?w 1 - clock ?w 0 < cacheExpiry" by code_simp
  have stale: "cacheExpiry \<le> clock ?w 2 - clock ?w 0" by code_simp
  from cached_descriptor_skips_fetch [OF miss first refl] t0 t1 fresh
  have a: "requests ?s1 = [module_json_path ''mod_a'']" "requests ?s2 = requests ?s1"
    by simp_all
  from cached_descriptor_skips_fetch [OF miss first kept] t1 t2 stale
  have b: "requests (snd (scanModule ?w ''mod_a'' ?s2)) = requests ?s2 @ [module_json_path ''mod_a'']"
    by simp
  from miss r fresh stale a b show ?thesis by simp
qed

text \<open>
  C4 as stated fails for a module resolved by the central registry: nothing is cached, and
  a second resolution right after the first requests the file again.
\<close>

theorem uncached_fallback_counterexample:
  "cached_result (example_org []) ModuleScanner ''mod_docker'' = None
   \<and> fst (scanModule (example_org []) ''mod_docker'' ModuleScanner)
       = Success Central central_docker
   \<and> cached_result (example_org [])
        (snd (scanModule (example_org []) ''mod_docker'' ModuleScanner)) ''mod_docker'' = None
   \<and> requests (snd (scanModule (example_org []) ''mod_docker''
        (snd (scanModule (example_org []) ''mod_docker'' ModuleScanner))))
       = [module_json_path ''mod_docker'', module_json_path ''mod_docker'']"
  by code_simp

section \<open>What convertToLegacyFormat returns\<close>




text \<open>
  A string name is what the theorem above needs: with a truthy \<^verbatim>\<open>deployment.repository\<close>
  and a name that is an object with an own property \<^verbatim>\<open>toString\<close>, the template literal
  of the \<^verbatim>\<open>url\<close> fallback throws.
\<close>

lemma unprintable_name_throws:
  "convertToLegacyFormat desc_unprintable_name
     = Inl (TypeError ''Cannot convert object to primitive value'')"
  by code_simp

text \<open>
  C9, as amended. The entry's \<^verbatim>\<open>subdomain\<close> is \<^verbatim>\<open>deployment.subdomain\<close> when that value
  is truthy and the descriptor's \<^verbatim>\<open>name\<close> otherwise: the name when
  \<^verbatim>\<open>deployment.subdomain\<close> is absent, and every non-empty string kept as it is.
\<close>

theorem subdomain_fallback:
  assumes "convertToLegacyFormat d = Inr e"
  shows "js_get e ''subdomain''
           = (if truthy (opt_member (js_get d ''deployment'') ''subdomain'')
              then opt_member (js_get d ''deployment'') ''subdomain''
              else js_get d ''name'')
       \<and> (opt_member (js_get d ''deployment'') ''subdomain'' = JUndefined
          \<longrightarrow> js_get e ''subdomain'' = js_get d ''name'')
       \<and> (opt_member (js_get d ''deployment'') ''subdomain'' = JStr x \<and> x \<noteq> []
          \<longrightarrow> js_get e ''subdomain'' = JStr x)"
  using assms
  by (auto simp: convertToLegacyFormat_def Let_def split: if_splits sum.splits)

theorem subdomain_fallback_witness:
  "(\<exists>e. convertToLegacyFormat descA = Inr e \<and> js_get e ''subdomain'' = JStr ''linux'')
   \<and> (\<exists>e. convertToLegacyFormat descC = Inr e \<and> js_get e ''subdomain'' = JStr ''docker-intro'')"
proof -
  have "is_string (js_get descA ''name'')" "is_string (js_get descC ''name'')" by code_simp+
  then obtain e e' where e: "convertToLegacyFormat descA = Inr e"
    and e': "convertToLegacyFormat descC = Inr e'"
    using convert_string_name by blast
  have a: "opt_member (js_get descA ''deployment'') ''subdomain'' = JStr ''linux''" by code_simp
  have c: "opt_member (js_get descC ''deployment'') ''subdomain'' = JUndefined"
    "js_get descC ''name'' = JStr ''docker-intro''" by code_simp+
  from subdomain_fallback [OF e, of "''linux''"] a
  have "js_get e ''subdomain'' = JStr ''linux''" by simp
  moreover from subdomain_fallback [OF e'] c
  have "js_get e' ''subdomain'' = JStr ''docker-intro''" by simp
  ultimately show ?thesis using e e' by blast
qed

text \<open>
  C9 as stated fails where \<^verbatim>\<open>deployment.subdomain\<close> is present and empty: the entry's
  \<^verbatim>\<open>subdomain\<close> is the name, not the explicit value.
\<close>

theorem empty_subdomain_counterexample:
  "opt_member (js_get desc_empty_subdomain ''deployment'') ''subdomain'' = JStr []
   \<and> js_get desc_empty_subdomain ''name'' = JStr ''linux-base''
   \<and> (case convertToLegacyFormat desc_empty_subdomain of
         Inr e \<Rightarrow> js_get e ''subdomain'' = JStr ''linux-base''
       | Inl err \<Rightarrow> False)"
  by code_simp

section \<open>Convention warnings do not block validation\<close>

lemma truthy_not_nullish: "truthy v \<Longrightarrow> \<not> nullish v"
  by (cases v) auto

lemma printable_string:
  assumes "printable v"
  obtains a where "js_to_string v = Inr a"
  using assms by (cases "js_to_string v") (auto simp: printable_def)

lemma js_less_printable:
  assumes "printable v"
  obtains few where "js_less coerced_less v n = Inr few"
proof -
  from assms obtain a where "js_to_string v = Inr a" by (rule printable_string)
  then have "\<exists>few. js_less coerced_less v n = Inr few" by (cases v) auto
  then show ?thesis using that by blast
qed

lemma message_of_printable:
  assumes "printable v"
  obtains a where "message_of mk v = Inr (mk a)"
  using assms by (auto simp: message_of_def elim: printable_string)

lemma warn_if_message:
  assumes "m = Inr x"
  shows "warn_if c m = Inr (if c then [x] else [])"
  using assms by (simp add: warn_if_def)

text \<open>
  The checks that follow the subdomain check, for a string name: they return, and none of
  their warnings is a subdomain warning.
\<close>

lemma later_checks:
  assumes "js_get d ''name'' = JStr n" and "conventions_printable d"
  obtains ws where
    "performSemanticValidation coerced_less d
       = and_then (warn_if (\<not> strict_eq (opt_member (js_get d ''deployment'') ''subdomain'')
                                 (JStr n))
                     (subdomain_message (opt_member (js_get d ''deployment'') ''subdomain'')
                        (JStr n)))
                  (Inr ws)"
    and "filter is_subdomain_mismatch ws = []"
proof -
  from assms(1) have nn: "\<not> nullish d" by (cases d) auto
  let ?repo = "opt_member (js_get d ''deployment'') ''repository''"
  let ?prod = "opt_member (js_get d ''urls'') ''production''"
  let ?hv = "opt_member (js_get d ''hugo_config'') ''hugo_version''"
  let ?tags = "opt_member (js_get d ''metadata'') ''tags''"
  from assms(2) have p: "printable ?repo" "printable ?prod" "printable ?hv"
    "printable (opt_member ?tags ''length'')"
    by (simp_all add: conventions_printable_def)
  obtain a where a: "js_to_string ?repo = Inr a" using p(1) by (rule printable_string)
  obtain b where b: "js_to_string ?prod = Inr b" using p(2) by (rule printable_string)
  obtain c where c: "js_to_string ?hv = Inr c" using p(3) by (rule printable_string)
  obtain few where few: "js_less coerced_less (opt_member ?tags ''length'') 3 = Inr few"
    using p(4) by (rule js_less_printable)
  have hv: "truthy ?hv \<Longrightarrow> js_get (js_get d ''hugo_config'') ''hugo_version'' = ?hv"
    by (auto simp: opt_member_def split: if_splits)
  have tags: "truthy ?tags
      \<Longrightarrow> js_get (js_get (js_get d ''metadata'') ''tags'') ''length'' = opt_member ?tags ''length''"
    by (auto simp: opt_member_def dest: truthy_not_nullish split: if_splits)
  let ?ws = "(if \<not> strict_eq ?repo (JStr (''mod_'' @ replace_dashes n))
              then [RepositoryConvention a (''mod_'' @ replace_dashes n)] else [])
           @ (if \<not> strict_eq ?prod (JStr (''https://'' @ n @ ''.infotecha.ru''))
              then [ProductionUrl b (''https://'' @ n @ ''.infotecha.ru'')] else [])
           @ (if \<not> truthy (opt_member (js_get d ''metadata'') ''license'')
              then [LicenseMissing] else [])
           @ (if truthy ?hv \<and> \<not> strict_eq ?hv (JStr ''0.148.0'') then [HugoVersion c] else [])
           @ (if truthy ?tags \<and> few then [FewTags] else [])"
  have "performSemanticValidation coerced_less d
       = and_then (warn_if (\<not> strict_eq (opt_member (js_get d ''deployment'') ''subdomain'')
                                 (JStr n))
                     (subdomain_message (opt_member (js_get d ''deployment'') ''subdomain'')
                        (JStr n)))
                  (Inr ?ws)"
    apply (simp only: performSemanticValidation_def Let_def nn if_False assms(1))
    apply (rule arg_cong2 [where f = and_then, OF refl])
    using hv tags
    apply (auto simp: and_then_def warn_if_def message_of_def a b c few)
    done
  moreover have "filter is_subdomain_mismatch ?ws = []" by simp
  ultimately show ?thesis using that by blast
qed

text \<open>
  C7. For every descriptor the schema accepts, \<^verbatim>\<open>validateModule\<close> returns \<^verbatim>\<open>true\<close>
  whatever the convention checks find, and the warnings it logs hold exactly one subdomain
  warning when \<^verbatim>\<open>deployment.subdomain\<close> differs from the name, and none when it is the
  name. The schema is a parameter; what is used of a descriptor it accepts is what the
  documented schema requires: the \<^verbatim>\<open>name\<close> is a string, and the values the checks put
  into their messages can be printed (they are strings, the tags an array).
\<close>

theorem convention_warnings_non_blocking:
  assumes "validate d" and "js_get d ''name'' = JStr n" and "conventions_printable d"
  shows "\<exists>ws. validateModule validate coerced_less d = Inr (True, ws)
           \<and> length (filter is_subdomain_mismatch ws)
               = (if opt_member (js_get d ''deployment'') ''subdomain'' = JStr n then 0 else 1)"
proof -
  let ?sub = "opt_member (js_get d ''deployment'') ''subdomain''"
  obtain ws where ws: "performSemanticValidation coerced_less d
       = and_then (warn_if (\<not> strict_eq ?sub (JStr n)) (subdomain_message ?sub (JStr n)))
                  (Inr ws)"
    and none: "filter is_subdomain_mismatch ws = []"
    using assms(2,3) by (rule later_checks)
  from assms(3) have "printable ?sub" by (simp add: conventions_printable_def)
  then obtain a where "js_to_string ?sub = Inr a" by (rule printable_string)
  then have "subdomain_message ?sub (JStr n) = Inr (SubdomainMismatch a n)"
    by (simp add: subdomain_message_def)
  from warn_if_message [OF this] ws
  have "performSemanticValidation coerced_less d
      = Inr ((if ?sub \<noteq> JStr n then [SubdomainMismatch a n] else []) @ ws)"
    by (simp add: and_then_def)
  with assms(1) none show ?thesis
    by (simp add: validateModule_def)
qed

theorem convention_warnings_non_blocking_witness:
  "is_string (js_get descA ''name'') \<and> js_get descA ''name'' = JStr ''linux-base''
   \<and> conventions_printable descA
   \<and> opt_member (js_get descA ''deployment'') ''subdomain'' = JStr ''linux''
   \<and> (\<exists>ws. validateModule (\<lambda>d. is_string (js_get d ''name'')) (\<lambda>v n. False) descA
             = Inr (True, ws)
          \<and> length (filter is_subdomain_mismatch ws) = 1)"
proof -
  have v: "is_string (js_get descA ''name'')" by code_simp
  have n: "js_get descA ''name'' = JStr ''linux-base''" by code_simp
  have p: "conventions_printable descA" by code_simp
  have s: "opt_member (js_get descA ''deployment'') ''subdomain'' = JStr ''linux''" by code_simp
  from convention_warnings_non_blocking [of "\<lambda>d. is_string (js_get d ''name'')" descA
      "''linux-base''" "\<lambda>v n. False", OF v n p] s v n p
  show ?thesis by simp
qed

text \<open>
  Outside these hypotheses the check can throw: a \<^verbatim>\<open>deployment.subdomain\<close> that is an
  object with an own property \<^verbatim>\<open>toString\<close> cannot be put into the message.
\<close>

lemma unprintable_subdomain_throws:
  "validateModule (\<lambda>d. True) (\<lambda>v n. False) desc_unprintable_subdomain
     = Inl (TypeError ''Cannot convert object to primitive value'')"
  by code_simp

section \<open>The organisation-wide scan and the catalog\<close>

lemma getRepositories_cache [simp]: "cache (snd (getRepositories w org s)) = cache s"
proof -
  let ?p = "''/orgs/'' @ org @ ''/repos?type=all&per_page=100''"
  obtain r s' where rq: "request w ?p s = (r, s')" by (cases "request w ?p s")
  then have "s' = s\<lparr>requests := requests s @ [?p]\<rparr>"
    using request_state [of w ?p s] by simp
  with rq show ?thesis
    by (simp add: getRepositories_def split: sum.splits jsval.splits)
qed








lemma unify_acc:
  "unify rs acc = (case unify rs [] of Inl e \<Rightarrow> Inl e | Inr ms \<Rightarrow> Inr (acc @ ms))"
proof (induction rs arbitrary: acc)
  case Nil
  then show ?case by simp
next
  case (Cons r rs)
  show ?case
  proof (cases "outcome r")
    case (Failure error)
    then show ?thesis using Cons.IH [of acc] by simp
  next
    case (Success src d)
    show ?thesis
    proof (cases "catalog_entry src d")
      case (Inl e)
      with Success show ?thesis by simp
    next
      case (Inr entry)
      with Success show ?thesis
        using Cons.IH [of "acc @ [entry]"] Cons.IH [of "[entry]"]
        by (simp split: sum.splits)
    qed
  qed
qed

lemma unify_successes:
  "(unify rs [] = Inr ms)
     = (map (\<lambda>(repo, src, d). catalog_entry src d) (successes rs) = map Inr ms)"
proof (induction rs arbitrary: ms)
  case Nil
  then show ?case by auto
next
  case (Cons r rs)
  show ?case
  proof (cases "outcome r")
    case (Failure error)
    then show ?thesis using Cons.IH by simp
  next
    case (Success src d)
    show ?thesis
    proof (cases "catalog_entry src d")
      case (Inl e)
      with Success show ?thesis by (cases ms) auto
    next
      case (Inr entry)
      have "unify rs [entry] = (case unify rs [] of Inl e \<Rightarrow> Inl e | Inr ms' \<Rightarrow> Inr (entry # ms'))"
        using unify_acc [of rs "[entry]"] by (simp split: sum.splits)
      with Success Inr show ?thesis
        using Cons.IH by (cases ms) (auto split: sum.splits)
    qed
  qed
qed


lemma generateUnifiedModules_unify:
  "(fst (generateUnifiedModules w s) = Inr c)
     = (unify (fst (scanAllModules w s)) [] = Inr (modules c)
        \<and> c = \<lparr>version = ''2.0'', generated_at = clock w (ticks (snd (scanAllModules w s))),
                build_system = ''hybrid'', modules = modules c\<rparr>)"
  by (cases "scanAllModules w s"; cases c)
     (auto simp: generateUnifiedModules_def Date_now_def split: sum.splits)











lemma map_of_name_assign [simp]:
  "map_of (assign kvs ''_source'' v) ''name'' = map_of kvs ''name''"
  by (rule map_of_assign_other) simp

lemma catalog_entry_name:
  assumes "catalog_entry src d = Inr e"
  shows "name_of e = name_of d"
proof (cases src)
  case ModuleJson
  with assms obtain l where l: "convertToLegacyFormat d = Inr l"
    and e: "set_source l (JStr ''module.json'') = Inr e"
    by (auto split: sum.splits)
  from l have nn: "\<not> nullish d" by (auto simp: convertToLegacyFormat_def split: if_splits)
  from l obtain kvs where kvs: "l = JObj kvs" "map_of kvs ''name'' = Some (js_get d ''name'')"
    by (auto simp: convertToLegacyFormat_def Let_def split: if_splits sum.splits)
  with e nn show ?thesis by (auto simp: name_of_def opt_member_def)
next
  case Central
  with assms show ?thesis
    by (cases d) (auto simp: name_of_def opt_member_def)
qed

lemma entry_names:
  assumes "map (\<lambda>(repo, src, d). catalog_entry src d) xs = map Inr ms"
  shows "map name_of ms = map (\<lambda>(repo, src, d). name_of d) xs"
  using assms
proof (induction xs arbitrary: ms)
  case Nil
  then show ?case by simp
next
  case (Cons x xs)
  then obtain e ms' where ms: "ms = e # ms'" by (cases ms) auto
  obtain repo src d where x: "x = (repo, src, d)" by (cases x) auto
  from Cons.prems ms x have "catalog_entry src d = Inr e"
    and "map (\<lambda>(repo, src, d). catalog_entry src d) xs = map Inr ms'"
    by simp_all
  with Cons.IH [of ms'] catalog_entry_name ms x show ?case by simp
qed

text \<open>
  C3, as amended. In every catalog \<^verbatim>\<open>generateUnifiedModules\<close> returns, the names of the
  entries are, in order, the names the successfully resolved sources carry: nothing is
  merged or dropped, so the names of the catalog are pairwise distinct exactly when the
  names of the sources are.
\<close>

theorem catalog_names:
  assumes "fst (generateUnifiedModules w s) = Inr c"
  shows "map name_of (modules c)
           = map (\<lambda>(repo, src, d). name_of d) (successes (fst (scanAllModules w s)))
       \<and> distinct (map name_of (modules c))
           = distinct (map (\<lambda>(repo, src, d). name_of d) (successes (fst (scanAllModules w s))))"
proof -
  from assms have "unify (fst (scanAllModules w s)) [] = Inr (modules c)"
    by (simp add: generateUnifiedModules_unify)
  then have "map name_of (modules c)
           = map (\<lambda>(repo, src, d). name_of d) (successes (fst (scanAllModules w s)))"
    unfolding unify_successes by (rule entry_names)
  then show ?thesis by simp
qed

theorem catalog_names_witness:
  "\<exists>c. fst (generateUnifiedModules (example_org [''mod_a'', ''mod_docker'']) ModuleScanner) = Inr c
      \<and> map name_of (modules c) = [JStr ''linux-base'', JStr ''docker'']
      \<and> distinct (map name_of (modules c))"
proof -
  let ?w = "example_org [''mod_a'', ''mod_docker'']"
  have "\<not> isl (fst (generateUnifiedModules ?w ModuleScanner))" by code_simp
  then obtain c where c: "fst (generateUnifiedModules ?w ModuleScanner) = Inr c"
    by (cases "fst (generateUnifiedModules ?w ModuleScanner)") auto
  have names: "map (\<lambda>(repo, src, d). name_of d) (successes (fst (scanAllModules ?w ModuleScanner)))
      = [JStr ''linux-base'', JStr ''docker'']"
    by code_simp
  from catalog_names [OF c] names
  have "map name_of (modules c) = [JStr ''linux-base'', JStr ''docker'']"
    "distinct (map name_of (modules c))"
    by simp_all
  with c show ?thesis by (intro conjI exI [of _ c]) (simp_all only:)
qed

text \<open>
  C3 as stated fails: the descriptors of \<^verbatim>\<open>mod_a\<close> and \<^verbatim>\<open>mod_d\<close> carry the same name,
  and the catalog has two entries of that name.
\<close>

theorem duplicate_names_counterexample:
  "map repository (fst (scanAllModules (example_org [''mod_a'', ''mod_d'']) ModuleScanner))
      = [''mod_a'', ''mod_d'']
   \<and> (case fst (generateUnifiedModules (example_org [''mod_a'', ''mod_d'']) ModuleScanner) of
         Inr c \<Rightarrow> map name_of (modules c) = [JStr ''linux-base'', JStr ''linux-base'']
                  \<and> \<not> distinct (map name_of (modules c))
       | Inl e \<Rightarrow> False)"
  by code_simp

end
